theory Spec2Isabelle
  imports Main "HOL-Library.Word"
begin

unbundle bit_operations_syntax

section \<open>Buffers, strings and their UTF-8 conversion\<close>

text \<open>
  A Node \<open>Buffer\<close> is a list of bytes. A JavaScript string is a list of 16-bit code
  units; it may hold unpaired surrogates. Error messages are ASCII and are kept as
  plain HOL strings.
\<close>

type_synonym byte = "8 word"
type_synonym buffer = "byte list"
type_synonym code_unit = "16 word"
type_synonym jsstring = "code_unit list"

definition js :: "string \<Rightarrow> jsstring" where
  "js s = map (\<lambda>c. of_nat (of_char c)) s"

definition is_high :: "nat \<Rightarrow> bool" where
  "is_high u \<longleftrightarrow> 0xD800 \<le> u \<and> u \<le> 0xDBFF"

definition is_low :: "nat \<Rightarrow> bool" where
  "is_low u \<longleftrightarrow> 0xDC00 \<le> u \<and> u \<le> 0xDFFF"

text \<open>
  \<open>Buffer.from(str, 'utf-8')\<close> first reads the code units as Unicode scalar values: a
  high surrogate followed by a low one is one supplementary code point, any other
  surrogate is replaced by U+FFFD.
\<close>

fun scalar_values :: "nat list \<Rightarrow> nat list" where
  "scalar_values (u # v # us) =
     (if is_high u \<and> is_low v
      then (0x10000 + (u - 0xD800) * 0x400 + (v - 0xDC00)) # scalar_values us
      else if is_high u \<or> is_low u then 0xFFFD # scalar_values (v # us)
      else u # scalar_values (v # us))"
| "scalar_values [u] = (if is_high u \<or> is_low u then [0xFFFD] else [u])"
| "scalar_values [] = []"

definition utf8_bytes :: "nat \<Rightarrow> nat list" where
  "utf8_bytes c =
     (if c < 0x80 then [c]
      else if c < 0x800 then [0xC0 + c div 0x40, 0x80 + c mod 0x40]
      else if c < 0x10000 then
        [0xE0 + c div 0x1000, 0x80 + (c div 0x40) mod 0x40, 0x80 + c mod 0x40]
      else [0xF0 + c div 0x40000, 0x80 + (c div 0x1000) mod 0x40,
            0x80 + (c div 0x40) mod 0x40, 0x80 + c mod 0x40])"

definition utf8_encode :: "jsstring \<Rightarrow> buffer" where
  "utf8_encode s = map of_nat (concat (map utf8_bytes (scalar_values (map unat s))))"

text \<open>
  \<open>buf.toString('utf-8')\<close>: the decoder of the Encoding Standard. A byte that cannot
  continue the sequence in progress ends it with one U+FFFD and is read again as a
  lead byte; input that ends inside a sequence gives one U+FFFD. A leading byte order
  mark is kept.
\<close>

definition cont :: "nat \<Rightarrow> bool" where
  "cont b \<longleftrightarrow> 0x80 \<le> b \<and> b \<le> 0xBF"

definition second_lo :: "nat \<Rightarrow> nat" where
  "second_lo b = (if b = 0xE0 then 0xA0 else if b = 0xF0 then 0x90 else 0x80)"

definition second_hi :: "nat \<Rightarrow> nat" where
  "second_hi b = (if b = 0xED then 0x9F else if b = 0xF4 then 0x8F else 0xBF)"

fun utf8_scalars :: "nat list \<Rightarrow> nat list" where
  "utf8_scalars [] = []"
| "utf8_scalars (b # bs) =
     (if b < 0x80 then b # utf8_scalars bs
      else if 0xC2 \<le> b \<and> b \<le> 0xDF then
        (case bs of
           [] \<Rightarrow> [0xFFFD]
         | c1 # r1 \<Rightarrow>
             if cont c1 then ((b - 0xC0) * 0x40 + (c1 - 0x80)) # utf8_scalars r1
             else 0xFFFD # utf8_scalars bs)
      else if 0xE0 \<le> b \<and> b \<le> 0xEF then
        (case bs of
           [] \<Rightarrow> [0xFFFD]
         | c1 # r1 \<Rightarrow>
             if second_lo b \<le> c1 \<and> c1 \<le> second_hi b then
               (case r1 of
                  [] \<Rightarrow> [0xFFFD]
                | c2 # r2 \<Rightarrow>
                    if cont c2
                    then ((b - 0xE0) * 0x1000 + (c1 - 0x80) * 0x40 + (c2 - 0x80))
                         # utf8_scalars r2
                    else 0xFFFD # utf8_scalars r1)
             else 0xFFFD # utf8_scalars bs)
      else if 0xF0 \<le> b \<and> b \<le> 0xF4 then
        (case bs of
           [] \<Rightarrow> [0xFFFD]
         | c1 # r1 \<Rightarrow>
             if second_lo b \<le> c1 \<and> c1 \<le> second_hi b then
               (case r1 of
                  [] \<Rightarrow> [0xFFFD]
                | c2 # r2 \<Rightarrow>
                    if cont c2 then
                      (case r2 of
                         [] \<Rightarrow> [0xFFFD]
                       | c3 # r3 \<Rightarrow>
                           if cont c3
                           then ((b - 0xF0) * 0x40000 + (c1 - 0x80) * 0x1000
                                 + (c2 - 0x80) * 0x40 + (c3 - 0x80)) # utf8_scalars r3
                           else 0xFFFD # utf8_scalars r2)
                    else 0xFFFD # utf8_scalars r1)
             else 0xFFFD # utf8_scalars bs)
      else 0xFFFD # utf8_scalars bs)"

definition utf16_units :: "nat \<Rightarrow> nat list" where
  "utf16_units c =
     (if c < 0x10000 then [c]
      else [0xD800 + (c - 0x10000) div 0x400, 0xDC00 + (c - 0x10000) mod 0x400])"

definition utf8_decode :: "buffer \<Rightarrow> jsstring" where
  "utf8_decode b = map of_nat (concat (map utf16_units (utf8_scalars (map unat b))))"

text \<open>A string is well formed when every surrogate is part of a pair
  (\<open>String.prototype.isWellFormed\<close>).\<close>

fun paired :: "nat list \<Rightarrow> bool" where
  "paired (u # v # us) =
     (if is_high u then is_low v \<and> paired us else \<not> is_low u \<and> paired (v # us))"
| "paired [u] = (\<not> is_high u \<and> \<not> is_low u)"
| "paired [] = True"

definition well_formed :: "jsstring \<Rightarrow> bool" where
  "well_formed s = paired (map unat s)"

text \<open>
  \<open>String.prototype.toWellFormed\<close>: the string with every unpaired surrogate replaced
  by U+FFFD.
\<close>

fun replace_unpaired :: "nat list \<Rightarrow> nat list" where
  "replace_unpaired (u # v # us) =
     (if is_high u \<and> is_low v then u # v # replace_unpaired us
      else if is_high u \<or> is_low u then 0xFFFD # replace_unpaired (v # us)
      else u # replace_unpaired (v # us))"
| "replace_unpaired [u] = (if is_high u \<or> is_low u then [0xFFFD] else [u])"
| "replace_unpaired [] = []"

definition toWellFormed :: "jsstring \<Rightarrow> jsstring" where
  "toWellFormed s = map of_nat (replace_unpaired (map unat s))"

definition scalar :: "nat \<Rightarrow> bool" where
  "scalar c \<longleftrightarrow> c < 0x110000 \<and> \<not> (0xD800 \<le> c \<and> c \<le> 0xDFFF)"

section \<open>Exceptions, JSON values and the traced outcome of a call\<close>

text \<open>
  A thrown value is an error object: its class and its message. Every \<open>catch\<close> of the
  encryption module rethrows \<open>new Error(prefix + error.message)\<close>, so the class of a
  library error is lost there and only the message survives.
\<close>

datatype js_error =
    JsError string
  | JsTypeError string
  | JsSyntaxError string
  | JsRangeError string

fun message :: "js_error \<Rightarrow> string" where
  "message (JsError m) = m"
| "message (JsTypeError m) = m"
| "message (JsSyntaxError m) = m"
| "message (JsRangeError m) = m"

text \<open>
  The values \<open>JSON.parse\<close> returns. An object is the list of its properties, each name
  once. A number is kept as an integer: the only number the module writes is the
  iteration count, and it reads none.
\<close>

datatype json =
    JNull
  | JBool bool
  | JNum int
  | JStr jsstring
  | JArr "json list"
  | JObj "(jsstring \<times> json) list"

text \<open>
  The cryptographic work a call performs, in order: one entry per call of
  \<open>crypto.pbkdf2\<close>, per cipher run and per decipher run. A result is the list of that
  work together with the value returned or the error thrown.
\<close>

datatype crypto_op = DeriveKey | Encrypt | Decrypt

type_synonym 'a outcome = "crypto_op list \<times> (js_error + 'a)"

definition and_then :: "'a outcome \<Rightarrow> ('a \<Rightarrow> 'b outcome) \<Rightarrow> 'b outcome" where
  "and_then m f =
     (case m of
        (ops, Inl err) \<Rightarrow> (ops, Inl err)
      | (ops, Inr x) \<Rightarrow> (case f x of (ops', r) \<Rightarrow> (ops @ ops', r)))"

definition pure_step :: "js_error + 'a \<Rightarrow> 'a outcome" where
  "pure_step r = ([], r)"

text \<open>\<open>try { ... } catch (error) { throw new Error(prefix + error.message) }\<close>\<close>

definition rethrow :: "string \<Rightarrow> 'a outcome \<Rightarrow> 'a outcome" where
  "rethrow prefix m =
     (case m of
        (ops, Inl err) \<Rightarrow> (ops, Inl (JsError (prefix @ message err)))
      | (ops, Inr x) \<Rightarrow> (ops, Inr x))"

section \<open>The Node library the module calls\<close>

text \<open>
  \<open>crypto.pbkdf2\<close>, the AES-GCM cipher and decipher objects, the base64 codec of
  \<open>Buffer\<close> and \<open>JSON\<close> are not code of this repository: they are parameters of the
  model. \<open>pbkdf2\<close> takes the password bytes (Node encodes a string password as UTF-8),
  the salt, the iteration count, the key length and the digest name. \<open>cipher_gcm\<close> is
  \<open>createCipheriv\<close>, \<open>update\<close>, \<open>final\<close> and \<open>getAuthTag\<close> on (algorithm, key, iv,
  data), giving ciphertext and tag; \<open>decipher_gcm\<close> is \<open>createDecipheriv\<close>,
  \<open>setAuthTag\<close>, \<open>update\<close> and \<open>final\<close> on (algorithm, key, iv, tag, ciphertext).
  \<open>from_base64\<close> is \<open>Buffer.from(string, 'base64')\<close>, which never throws on a string.
  The type \<open>'t\<close> is the text JSON is written in.
\<close>

record 't node_lib =
  pbkdf2 :: "buffer \<Rightarrow> buffer \<Rightarrow> nat \<Rightarrow> nat \<Rightarrow> string \<Rightarrow> js_error + buffer"
  cipher_gcm :: "string \<Rightarrow> buffer \<Rightarrow> buffer \<Rightarrow> buffer \<Rightarrow> js_error + buffer \<times> buffer"
  decipher_gcm :: "string \<Rightarrow> buffer \<Rightarrow> buffer \<Rightarrow> buffer \<Rightarrow> buffer \<Rightarrow> js_error + buffer"
  to_base64 :: "buffer \<Rightarrow> jsstring"
  from_base64 :: "jsstring \<Rightarrow> buffer"
  buffer_from_array :: "json list \<Rightarrow> buffer"
  buffer_from_object :: "(jsstring \<times> json) list \<Rightarrow> js_error + buffer"
  json_stringify :: "json \<Rightarrow> 't"
  json_parse :: "'t \<Rightarrow> js_error + json"

section \<open>The encryption module\<close>

record encryption_config =
  algorithm :: string
  keyLength :: nat
  ivLength :: nat
  tagLength :: nat
  saltLength :: nat
  pbkdf2Iterations :: nat
  pbkdf2Digest :: string

definition ENCRYPTION_CONFIG :: encryption_config where
  "ENCRYPTION_CONFIG =
     \<lparr>algorithm = ''aes-256-gcm'', keyLength = 32, ivLength = 16, tagLength = 16,
      saltLength = 32, pbkdf2Iterations = 100000, pbkdf2Digest = ''sha256''\<rparr>"

record derived_key =
  key :: buffer
  salt :: buffer

text \<open>
  \<open>deriveKeyFromPassword(password, salt = null)\<close>. \<open>random_salt\<close> is what
  \<open>crypto.randomBytes(saltLength)\<close> returns in this call; it is used only when no salt
  is passed (a Buffer is truthy whatever its length).
\<close>

definition deriveKeyFromPassword ::
  "'t node_lib \<Rightarrow> buffer \<Rightarrow> jsstring \<Rightarrow> buffer option \<Rightarrow> derived_key outcome" where
  "deriveKeyFromPassword L random_salt password salt_arg =
     (let s = (case salt_arg of None \<Rightarrow> random_salt | Some b \<Rightarrow> b) in
      ([DeriveKey],
       case pbkdf2 L (utf8_encode password) s (pbkdf2Iterations ENCRYPTION_CONFIG)
              (keyLength ENCRYPTION_CONFIG) (pbkdf2Digest ENCRYPTION_CONFIG) of
         Inl err \<Rightarrow> Inl err
       | Inr derivedKey \<Rightarrow> Inr \<lparr>key = derivedKey, salt = s\<rparr>))"

datatype js_data = Text jsstring | Bytes buffer

record encrypted_data =
  ciphertext :: buffer
  iv :: buffer
  tag :: buffer
  alg :: string

text \<open>
  \<open>encryptData(data, key, iv = null)\<close>. A missing key is \<open>None\<close>. \<open>random_iv\<close> is
  what \<open>crypto.randomBytes(ivLength)\<close> returns in this call.
\<close>

definition encryptData ::
  "'t node_lib \<Rightarrow> buffer \<Rightarrow> js_data \<Rightarrow> buffer option \<Rightarrow> buffer option
     \<Rightarrow> encrypted_data outcome" where
  "encryptData L random_iv data key_arg iv_arg =
     (case key_arg of
        None \<Rightarrow> ([], Inl (JsError ''Key must be 32 bytes''))
      | Some k \<Rightarrow>
          if length k \<noteq> keyLength ENCRYPTION_CONFIG
          then ([], Inl (JsError ''Key must be 32 bytes''))
          else
            let nonce = (case iv_arg of None \<Rightarrow> random_iv | Some b \<Rightarrow> b);
                dataBuffer = (case data of Text s \<Rightarrow> utf8_encode s | Bytes b \<Rightarrow> b)
            in ([Encrypt],
                case cipher_gcm L (algorithm ENCRYPTION_CONFIG) k nonce dataBuffer of
                  Inl err \<Rightarrow> Inl err
                | Inr (c, t) \<Rightarrow>
                    Inr \<lparr>ciphertext = c, iv = nonce, tag = t,
                         alg = algorithm ENCRYPTION_CONFIG\<rparr>))"

text \<open>\<open>decryptData(ciphertext, key, iv, tag)\<close>; a missing argument is \<open>None\<close>.\<close>

definition decryptData ::
  "'t node_lib \<Rightarrow> buffer \<Rightarrow> buffer option \<Rightarrow> buffer option \<Rightarrow> buffer option
     \<Rightarrow> jsstring outcome" where
  "decryptData L ct key_arg iv_arg tag_arg =
     (if (case key_arg of None \<Rightarrow> True | Some k \<Rightarrow> length k \<noteq> keyLength ENCRYPTION_CONFIG)
      then ([], Inl (JsError ''Key must be 32 bytes''))
      else if (case iv_arg of None \<Rightarrow> True | Some n \<Rightarrow> length n \<noteq> ivLength ENCRYPTION_CONFIG)
      then ([], Inl (JsError ''IV must be 16 bytes''))
      else if (case tag_arg of None \<Rightarrow> True | Some t \<Rightarrow> length t \<noteq> tagLength ENCRYPTION_CONFIG)
      then ([], Inl (JsError ''Tag must be 16 bytes''))
      else
        ([Decrypt],
         case decipher_gcm L (algorithm ENCRYPTION_CONFIG) (the key_arg) (the iv_arg)
                (the tag_arg) ct of
           Inl err \<Rightarrow> Inl err
         | Inr plaintext \<Rightarrow> Inr (utf8_decode plaintext)))"

record sealed =
  encrypted :: buffer
  sealed_iv :: buffer
  sealed_tag :: buffer
  sealed_salt :: buffer
  sealed_algorithm :: string

definition encryptWithPassword ::
  "'t node_lib \<Rightarrow> buffer \<Rightarrow> buffer \<Rightarrow> js_data \<Rightarrow> jsstring \<Rightarrow> sealed outcome" where
  "encryptWithPassword L random_salt random_iv data password =
     rethrow ''Encryption failed: ''
       (and_then (deriveKeyFromPassword L random_salt password None) (\<lambda>d.
        and_then (encryptData L random_iv data (Some (key d)) None) (\<lambda>e.
        ([], Inr \<lparr>encrypted = ciphertext e, sealed_iv = iv e, sealed_tag = tag e,
                  sealed_salt = salt d,
                  sealed_algorithm = algorithm ENCRYPTION_CONFIG\<rparr>))))"

definition decryptWithPassword ::
  "'t node_lib \<Rightarrow> buffer \<Rightarrow> jsstring \<Rightarrow> buffer \<Rightarrow> buffer \<Rightarrow> buffer \<Rightarrow> jsstring outcome" where
  "decryptWithPassword L ct password salt_arg iv_arg tag_arg =
     rethrow ''Decryption failed: ''
       (and_then (deriveKeyFromPassword L [] password (Some salt_arg)) (\<lambda>d.
        decryptData L ct (Some (key d)) (Some iv_arg) (Some tag_arg)))"

text \<open>The object \<open>encryptCSVData\<close> hands to \<open>JSON.stringify\<close>.\<close>

definition envelope ::
  "jsstring \<Rightarrow> jsstring \<Rightarrow> jsstring \<Rightarrow> jsstring \<Rightarrow> string \<Rightarrow> nat \<Rightarrow> json" where
  "envelope s n t c a i =
     JObj [(js ''salt'', JStr s), (js ''iv'', JStr n), (js ''tag'', JStr t),
           (js ''ciphertext'', JStr c), (js ''algorithm'', JStr (js a)),
           (js ''iterations'', JNum (int i))]"

record metadata =
  meta_algorithm :: string
  iterations :: nat

record 't csv_export =
  payload :: 't
  metadata :: metadata

definition encryptCSVData ::
  "'t node_lib \<Rightarrow> buffer \<Rightarrow> buffer \<Rightarrow> jsstring \<Rightarrow> jsstring \<Rightarrow> 't csv_export outcome" where
  "encryptCSVData L random_salt random_iv csvData password =
     rethrow ''CSV encryption failed: ''
       (and_then (encryptWithPassword L random_salt random_iv (Text csvData) password) (\<lambda>r.
        ([], Inr \<lparr>payload = json_stringify L
                     (envelope (to_base64 L (sealed_salt r)) (to_base64 L (sealed_iv r))
                        (to_base64 L (sealed_tag r)) (to_base64 L (encrypted r))
                        (algorithm ENCRYPTION_CONFIG) (pbkdf2Iterations ENCRYPTION_CONFIG)),
                  metadata = \<lparr>meta_algorithm = algorithm ENCRYPTION_CONFIG,
                               iterations = pbkdf2Iterations ENCRYPTION_CONFIG\<rparr>\<rparr>)))"

text \<open>
  \<open>data.name\<close> on the value \<open>JSON.parse\<close> returned, for the four names the module
  reads (none of them is a property of a prototype): reading a property of \<open>null\<close>
  throws, an object gives the property or \<open>undefined\<close> (\<open>None\<close>), every other value gives
  \<open>undefined\<close>.
\<close>

fun property :: "json \<Rightarrow> string \<Rightarrow> js_error + json option" where
  "property JNull name =
     Inl (JsTypeError (''Cannot read properties of null (reading '' @ [CHR 0x27] @ name
                        @ [CHR 0x27] @ '')''))"
| "property (JObj kvs) name = Inr (map_of kvs (js name))"
| "property v name = Inr None"

text \<open>
  \<open>Buffer.from(value, 'base64')\<close>: a string is decoded, an array or an object is
  converted by the library, and \<open>undefined\<close>, \<open>null\<close>, a number or a boolean throws a
  TypeError.
\<close>

function decimal :: "nat \<Rightarrow> string" where
  "decimal n =
     (if n < 10 then [char_of (48 + n)] else decimal (n div 10) @ [char_of (48 + n mod 10)])"
  by pat_completeness auto
termination
  by (relation "measure id") auto

text \<open>How the message of the TypeError describes the value that was refused (a number
  as the digits of the integer it is).\<close>

fun received :: "json option \<Rightarrow> string" where
  "received None = ''undefined''"
| "received (Some JNull) = ''null''"
| "received (Some (JBool b)) = ''type boolean ('' @ (if b then ''true'' else ''false'') @ '')''"
| "received (Some (JNum i)) =
     ''type number ('' @ (if i < 0 then ''-'' @ decimal (nat (- i)) else decimal (nat i)) @ '')''"
| "received (Some v) = ''an instance of Object''"

definition buffer_from :: "'t node_lib \<Rightarrow> json option \<Rightarrow> js_error + buffer" where
  "buffer_from L v =
     (case v of
        Some (JStr s) \<Rightarrow> Inr (from_base64 L s)
      | Some (JArr xs) \<Rightarrow> Inr (buffer_from_array L xs)
      | Some (JObj kvs) \<Rightarrow> buffer_from_object L kvs
      | _ \<Rightarrow> Inl (JsTypeError (''The first argument must be of type string or an instance of Buffer, ArrayBuffer, or Array or an Array-like Object. Received '' @ received v)))"

definition field_buffer :: "'t node_lib \<Rightarrow> json \<Rightarrow> string \<Rightarrow> buffer outcome" where
  "field_buffer L data name =
     pure_step (case property data name of
                  Inl err \<Rightarrow> Inl err
                | Inr v \<Rightarrow> buffer_from L v)"

definition decryptCSVData :: "'t node_lib \<Rightarrow> 't \<Rightarrow> jsstring \<Rightarrow> jsstring outcome" where
  "decryptCSVData L payload_text password =
     rethrow ''CSV decryption failed: ''
       (and_then (pure_step (json_parse L payload_text)) (\<lambda>data.
        and_then (field_buffer L data ''ciphertext'') (\<lambda>ct.
        and_then (field_buffer L data ''salt'') (\<lambda>s.
        and_then (field_buffer L data ''iv'') (\<lambda>n.
        and_then (field_buffer L data ''tag'') (\<lambda>t.
        decryptWithPassword L ct password s n t))))))"

section \<open>The CSV builder of the server\<close>

record address =
  apt_unit :: jsstring
  address_line_1 :: jsstring
  address_line_2 :: jsstring
  street :: jsstring
  city :: jsstring
  state_province :: jsstring
  country :: jsstring
  postal_code :: jsstring

record billing_data =
  card_number :: jsstring
  expiry_date :: jsstring
  cvv :: jsstring
  address :: address

definition mockBillingData :: billing_data where
  "mockBillingData =
     \<lparr>card_number = js ''4532-1111-2222-3333'', expiry_date = js ''12/25'',
      cvv = js ''***'',
      address = \<lparr>apt_unit = js ''Suite 100'', address_line_1 = js ''123 Main Street'',
                  address_line_2 = js ''Building A'', street = js ''Main Street'',
                  city = js ''San Francisco'', state_province = js ''CA'',
                  country = js ''United States'', postal_code = js ''94105''\<rparr>\<rparr>"

text \<open>
  The values a call \<open>getter()\<close> can produce in \<open>buildCSVData\<close>: a string, a boolean or
  a fresh empty object. What \<open>fieldMap[field]\<close> finds is either a function, described
  by what calling it with no receiver and no argument does, or a value that is not a
  function.
\<close>

datatype js_value = VString jsstring | VBoolean bool | VObject

datatype member = Callable "js_error + js_value" | NotCallable

text \<open>The eleven own properties of the object literal \<open>fieldMap\<close>, each with the string
  its arrow function returns.\<close>

definition fieldMap_own :: "billing_data \<Rightarrow> (jsstring \<times> jsstring) list" where
  "fieldMap_own data =
     [(js ''apt_unit'', apt_unit (address data)),
      (js ''address_line_1'', address_line_1 (address data)),
      (js ''address_line_2'', address_line_2 (address data)),
      (js ''street'', street (address data)),
      (js ''city'', city (address data)),
      (js ''state_province'', state_province (address data)),
      (js ''country'', country (address data)),
      (js ''postal_code'', postal_code (address data)),
      (js ''card_number'', card_number data),
      (js ''expiry_date'', expiry_date data),
      (js ''cvv'', js ''***'')]"

text \<open>
  \<open>fieldMap\<close> is an object literal, so a property it does not own is looked up on
  \<open>Object.prototype\<close>. These are that object's properties and what each does when it is
  called as \<open>getter()\<close>: \<open>toString\<close> describes the missing receiver, \<open>constructor\<close>
  returns a new object, \<open>isPrototypeOf\<close> returns \<open>false\<close> for a missing argument,
  \<open>__proto__\<close> is an object and not a function, and the others throw a TypeError
  because they need a receiver.
\<close>

definition no_receiver :: js_error where
  "no_receiver = JsTypeError ''Cannot convert undefined or null to object''"

definition object_prototype :: "(jsstring \<times> member) list" where
  "object_prototype =
     [(js ''constructor'', Callable (Inr VObject)),
      (js ''__defineGetter__'', Callable (Inl no_receiver)),
      (js ''__defineSetter__'', Callable (Inl no_receiver)),
      (js ''hasOwnProperty'', Callable (Inl no_receiver)),
      (js ''__lookupGetter__'', Callable (Inl no_receiver)),
      (js ''__lookupSetter__'', Callable (Inl no_receiver)),
      (js ''isPrototypeOf'', Callable (Inr (VBoolean False))),
      (js ''propertyIsEnumerable'', Callable (Inl no_receiver)),
      (js ''toString'', Callable (Inr (VString (js ''[object Undefined]'')))),
      (js ''valueOf'', Callable (Inl no_receiver)),
      (js ''__proto__'', NotCallable),
      (js ''toLocaleString'',
       Callable (Inl (JsTypeError
         ''Object.prototype.toLocaleString called on null or undefined'')))]"

definition fieldMap :: "billing_data \<Rightarrow> jsstring \<Rightarrow> member option" where
  "fieldMap data field =
     (case map_of (fieldMap_own data) field of
        Some v \<Rightarrow> Some (Callable (Inr (VString v)))
      | None \<Rightarrow> map_of object_prototype field)"

definition comma :: code_unit where "comma = 0x2C"

definition dquote :: code_unit where "dquote = 0x22"

text \<open>\<open>value.replace(/"/g, '""')\<close>\<close>

definition double_quotes :: "jsstring \<Rightarrow> jsstring" where
  "double_quotes v = concat (map (\<lambda>c. if c = dquote then [dquote, dquote] else [c]) v)"

text \<open>The callback of \<open>fields.map\<close>: the cell of one field, or the error it throws.\<close>

definition cell :: "billing_data \<Rightarrow> jsstring \<Rightarrow> js_error + js_value" where
  "cell data field =
     (case fieldMap data field of
        None \<Rightarrow> Inr (VString [])
      | Some NotCallable \<Rightarrow> Inl (JsTypeError ''getter is not a function'')
      | Some (Callable (Inl err)) \<Rightarrow> Inl err
      | Some (Callable (Inr (VString v))) \<Rightarrow>
          if comma \<in> set v \<or> dquote \<in> set v
          then Inr (VString ([dquote] @ double_quotes v @ [dquote]))
          else Inr (VString v)
      | Some (Callable (Inr v)) \<Rightarrow> Inr v)"

fun cells :: "billing_data \<Rightarrow> jsstring list \<Rightarrow> js_error + js_value list" where
  "cells data [] = Inr []"
| "cells data (f # fs) =
     (case cell data f of
        Inl err \<Rightarrow> Inl err
      | Inr v \<Rightarrow> (case cells data fs of Inl err \<Rightarrow> Inl err | Inr vs \<Rightarrow> Inr (v # vs)))"

text \<open>How \<open>Array.prototype.join\<close> writes an element.\<close>

fun to_string :: "js_value \<Rightarrow> jsstring" where
  "to_string (VString v) = v"
| "to_string (VBoolean b) = (if b then js ''true'' else js ''false'')"
| "to_string VObject = js ''[object Object]''"

fun join :: "jsstring list \<Rightarrow> jsstring" where
  "join [] = []"
| "join [x] = x"
| "join (x # y # ys) = x @ [comma] @ join (y # ys)"

definition buildCSVData :: "billing_data \<Rightarrow> jsstring list \<Rightarrow> js_error + jsstring" where
  "buildCSVData data field_names =
     (let headers = join field_names in
      case cells data field_names of
        Inl err \<Rightarrow> Inl err
      | Inr vs \<Rightarrow> Inr (headers @ [0x0A] @ join (map to_string vs)))"

section \<open>Notions of the specification\<close>

text \<open>
  A sealer as the specification describes it, which derives the key with a given
  iteration count and records that count in the envelope. \<open>encryptCSVData\<close> is the case
  of 100000 iterations.
\<close>

definition seal_with_iterations ::
  "'t node_lib \<Rightarrow> nat \<Rightarrow> buffer \<Rightarrow> buffer \<Rightarrow> jsstring \<Rightarrow> jsstring \<Rightarrow> 't option" where
  "seal_with_iterations L i s n plain password =
     (case pbkdf2 L (utf8_encode password) s i 32 ''sha256'' of
        Inl err \<Rightarrow> None
      | Inr k \<Rightarrow>
          (case cipher_gcm L ''aes-256-gcm'' k n (utf8_encode plain) of
             Inl err \<Rightarrow> None
           | Inr (c, t) \<Rightarrow>
               Some (json_stringify L
                 (envelope (to_base64 L s) (to_base64 L n) (to_base64 L t) (to_base64 L c)
                    ''aes-256-gcm'' i))))"

text \<open>A single-bit change of a buffer: bit \<open>j\<close> of the byte at index \<open>i\<close> is inverted.\<close>

definition flip_bit :: "buffer \<Rightarrow> nat \<Rightarrow> nat \<Rightarrow> buffer" where
  "flip_bit b i j = b[i := (b ! i) XOR push_bit j 1]"

text \<open>Base64 text as RFC 4648 defines it: characters of the alphabet in groups of four,
  the last group padded with at most two \<open>=\<close>.\<close>

definition base64_alphabet :: "code_unit set" where
  "base64_alphabet =
     set (js ''ABCDEFGHIJKLMNOPQRSTUVWXYZabcdefghijklmnopqrstuvwxyz0123456789+/'')"

definition valid_base64 :: "jsstring \<Rightarrow> bool" where
  "valid_base64 s \<longleftrightarrow>
     length s mod 4 = 0
     \<and> (let body = takeWhile (\<lambda>c. c \<noteq> 0x3D) s; pad = dropWhile (\<lambda>c. c \<noteq> 0x3D) s
        in set body \<subseteq> base64_alphabet \<and> length pad \<le> 2 \<and> set pad \<subseteq> {0x3D})"

text \<open>The values \<open>Buffer.from\<close> refuses: \<open>undefined\<close>, \<open>null\<close>, a boolean and a number.\<close>

fun refused :: "json option \<Rightarrow> bool" where
  "refused None = True"
| "refused (Some JNull) = True"
| "refused (Some (JBool b)) = True"
| "refused (Some (JNum i)) = True"
| "refused (Some v) = False"

section \<open>What the module relies on from the library\<close>

text \<open>
  The facts about Node that the theorems below assume, each stated for the arguments
  the module passes. PBKDF2 with a positive iteration count returns a key of the
  requested length for any password and salt. AES-256-GCM under a 32-byte key and a
  16-byte nonce returns a ciphertext as long as the data and a 16-byte tag, and the
  decipher run on exactly these values returns the data. Decoding the base64 text of a
  buffer gives the buffer back, and parsing the JSON text of an envelope object gives
  the object back.
\<close>

definition kdf_contract :: "'t node_lib \<Rightarrow> bool" where
  "kdf_contract L \<longleftrightarrow>
     (\<forall>pw s. \<exists>k. pbkdf2 L pw s 100000 32 ''sha256'' = Inr k \<and> length k = 32)"

definition cipher_contract :: "'t node_lib \<Rightarrow> bool" where
  "cipher_contract L \<longleftrightarrow>
     (\<forall>k n d. length k = 32 \<and> length n = 16 \<longrightarrow>
        (\<exists>c t. cipher_gcm L ''aes-256-gcm'' k n d = Inr (c, t)
               \<and> length c = length d \<and> length t = 16
               \<and> decipher_gcm L ''aes-256-gcm'' k n t c = Inr d))"

text \<open>
  Two more facts about AES-256-GCM, on what the decipher accepts. Encryption is
  deterministic, so a ciphertext and 16-byte tag the decipher accepts under a key and a
  nonce, returning some data, are what the cipher produces for that data under that key
  and nonce. And the tag is recomputed from key, nonce and ciphertext and compared, so for
  one key, nonce and ciphertext at most one 16-byte tag is accepted.
\<close>

definition decipher_contract :: "'t node_lib \<Rightarrow> bool" where
  "decipher_contract L \<longleftrightarrow>
     (\<forall>k n t c d. length k = 32 \<and> length n = 16 \<and> length t = 16
        \<and> decipher_gcm L ''aes-256-gcm'' k n t c = Inr d \<longrightarrow>
        cipher_gcm L ''aes-256-gcm'' k n d = Inr (c, t))"

definition tag_contract :: "'t node_lib \<Rightarrow> bool" where
  "tag_contract L \<longleftrightarrow>
     (\<forall>k n c t t' d d'. length t = 16 \<and> length t' = 16
        \<and> decipher_gcm L ''aes-256-gcm'' k n t c = Inr d
        \<and> decipher_gcm L ''aes-256-gcm'' k n t' c = Inr d' \<longrightarrow> t = t')"

definition base64_contract :: "'t node_lib \<Rightarrow> bool" where
  "base64_contract L \<longleftrightarrow> (\<forall>b. from_base64 L (to_base64 L b) = b)"

definition json_contract :: "'t node_lib \<Rightarrow> bool" where
  "json_contract L \<longleftrightarrow>
     (\<forall>s n t c a i. json_parse L (json_stringify L (envelope s n t c a i))
                      = Inr (envelope s n t c a i))"

section \<open>An executable instance of the library interface\<close>

text \<open>
  A small instance on which the module can be run. It is not Node's cryptography: the
  key derivation and the cipher are simple byte arithmetic with the same interface,
  the text codec writes one code unit per byte, and a JSON text is either the value it
  denotes or no JSON at all. It shows that the contracts above can be met together and gives the
  closed examples something to compute with.
\<close>

definition sample_pbkdf2 ::
  "buffer \<Rightarrow> buffer \<Rightarrow> nat \<Rightarrow> nat \<Rightarrow> string \<Rightarrow> js_error + buffer" where
  "sample_pbkdf2 pw s iters len digest =
     (if iters = 0 then Inl (JsRangeError ''The value of iterations is out of range.'')
      else Inr (replicate len (foldr (+) (pw @ s) (of_nat iters))))"

definition sample_pad :: "buffer \<Rightarrow> buffer \<Rightarrow> byte" where
  "sample_pad k n = foldr (XOR) (k @ n) 0"

definition sample_mac :: "buffer \<Rightarrow> buffer \<Rightarrow> buffer \<Rightarrow> buffer" where
  "sample_mac k n c = replicate 16 (foldr (+) (take 1 k @ n @ c) 0)"

definition sample_cipher ::
  "string \<Rightarrow> buffer \<Rightarrow> buffer \<Rightarrow> buffer \<Rightarrow> js_error + buffer \<times> buffer" where
  "sample_cipher a k n d =
     (let c = map (\<lambda>b. b XOR sample_pad k n) d in Inr (c, sample_mac k n c))"

definition sample_decipher ::
  "string \<Rightarrow> buffer \<Rightarrow> buffer \<Rightarrow> buffer \<Rightarrow> buffer \<Rightarrow> js_error + buffer" where
  "sample_decipher a k n t c =
     (if t = sample_mac k n c then Inr (map (\<lambda>b. b XOR sample_pad k n) c)
      else Inl (JsError ''Unsupported state or unable to authenticate data''))"

definition sample_lib :: "json option node_lib" where
  "sample_lib =
     \<lparr>pbkdf2 = sample_pbkdf2, cipher_gcm = sample_cipher, decipher_gcm = sample_decipher,
      to_base64 = map ucast, from_base64 = map ucast,
      buffer_from_array = (\<lambda>xs. []),
      buffer_from_object = (\<lambda>kvs. Inl (JsTypeError ''The first argument must be of type string or an instance of Buffer, ArrayBuffer, or Array or an Array-like Object.'')),
      json_stringify = Some,
      json_parse = (\<lambda>text. case text of
                      None \<Rightarrow> Inl (JsSyntaxError ''Unexpected end of JSON input'')
                    | Some v \<Rightarrow> Inr v)\<rparr>"

section \<open>Contracts of the sample library\<close>

lemma sample_kdf_contract: "kdf_contract sample_lib"
  by (simp add: kdf_contract_def sample_lib_def sample_pbkdf2_def)

lemma sample_cipher_contract: "cipher_contract sample_lib"
  by (simp add: cipher_contract_def sample_lib_def sample_cipher_def sample_decipher_def
      sample_mac_def Let_def comp_def xor.assoc)

lemma sample_base64_contract: "base64_contract sample_lib"
proof -
  have "ucast (ucast b :: code_unit) = b" for b :: byte
    by (simp add: ucast_up_ucast_id is_up)
  then show ?thesis
    by (simp add: base64_contract_def sample_lib_def comp_def)
qed

lemma sample_json_contract: "json_contract sample_lib"
  by (simp add: json_contract_def sample_lib_def)

section \<open>UTF-8 encoding followed by decoding\<close>

lemma utf8_scalars_one_byte: "c < 0x80 \<Longrightarrow> utf8_scalars (utf8_bytes c @ rest) = c # utf8_scalars rest"
  by (simp add: utf8_bytes_def)

lemma utf8_scalars_two_bytes:
  assumes "0x80 \<le> c" "c < 0x800"
  shows "utf8_scalars (utf8_bytes c @ rest) = c # utf8_scalars rest"
proof -
  define h where "h = c div 0x40"
  define l where "l = c mod 0x40"
  have c: "c = h * 0x40 + l" and l: "l < 0x40" by (simp_all add: h_def l_def)
  have h: "2 \<le> h" "h < 0x20" using assms by (simp_all add: h_def)
  have b: "utf8_bytes c = [0xC0 + h, 0x80 + l]"
    using assms by (simp add: utf8_bytes_def h_def l_def)
  show ?thesis unfolding b using h l by (simp add: cont_def c)
qed

lemma div_4096: "c div 0x1000 = c div 0x40 div 0x40" for c :: nat
  by (simp add: div_mult2_eq [symmetric])

lemma div_262144: "c div 0x40000 = c div 0x40 div 0x40 div 0x40" for c :: nat
  by (simp add: div_mult2_eq [symmetric])

lemma utf8_scalars_step3:
  assumes "0xE0 \<le> b" "b \<le> 0xEF" "second_lo b \<le> c1" "c1 \<le> second_hi b" "cont c2"
  shows "utf8_scalars (b # c1 # c2 # r)
         = ((b - 0xE0) * 0x1000 + (c1 - 0x80) * 0x40 + (c2 - 0x80)) # utf8_scalars r"
proof -
  have "\<not> b < 0x80" "\<not> (0xC2 \<le> b \<and> b \<le> 0xDF)" using assms(1) by simp_all
  then show ?thesis using assms by simp
qed

lemma utf8_scalars_step4:
  assumes "0xF0 \<le> b" "b \<le> 0xF4" "second_lo b \<le> c1" "c1 \<le> second_hi b" "cont c2" "cont c3"
  shows "utf8_scalars (b # c1 # c2 # c3 # r)
         = ((b - 0xF0) * 0x40000 + (c1 - 0x80) * 0x1000 + (c2 - 0x80) * 0x40 + (c3 - 0x80))
           # utf8_scalars r"
proof -
  have "\<not> b < 0x80" "\<not> (0xC2 \<le> b \<and> b \<le> 0xDF)" "\<not> (0xE0 \<le> b \<and> b \<le> 0xEF)"
    using assms(1) by simp_all
  then show ?thesis using assms by simp
qed

lemma utf8_scalars_three_bytes:
  assumes "0x800 \<le> c" "c < 0x10000" "\<not> (0xD800 \<le> c \<and> c \<le> 0xDFFF)"
  shows "utf8_scalars (utf8_bytes c @ rest) = c # utf8_scalars rest"
proof -
  define q where "q = c div 0x40"
  define h where "h = q div 0x40"
  define m where "m = q mod 0x40"
  define l where "l = c mod 0x40"
  have cq: "c = q * 0x40 + l" by (simp add: q_def l_def)
  have qh: "q = h * 0x40 + m" by (simp add: h_def m_def)
  have c: "c = h * 0x1000 + m * 0x40 + l" using cq qh by simp
  have l: "l < 0x40" and m: "m < 0x40" by (simp_all add: m_def l_def)
  have h: "h < 0x10" using assms(2) c by linarith
  have h0: "h = 0 \<Longrightarrow> 0x20 \<le> m" using assms(1) c l by linarith
  have hd: "h = 0xD \<Longrightarrow> m < 0x20" using assms(3) c l m by linarith
  have b: "utf8_bytes c = [0xE0 + h, 0x80 + m, 0x80 + l]"
    using assms by (simp add: utf8_bytes_def div_4096 h_def m_def l_def q_def)
  have snd: "second_lo (0xE0 + h) \<le> 0x80 + m" "0x80 + m \<le> second_hi (0xE0 + h)"
    using h h0 hd m by (auto simp: second_lo_def second_hi_def)
  have third: "cont (0x80 + l)" using l by (simp add: cont_def)
  have "utf8_scalars ((0xE0 + h) # (0x80 + m) # (0x80 + l) # rest)
        = ((0xE0 + h - 0xE0) * 0x1000 + (0x80 + m - 0x80) * 0x40 + (0x80 + l - 0x80))
          # utf8_scalars rest"
    using h snd third by (intro utf8_scalars_step3) simp_all
  then show ?thesis unfolding b using c by simp
qed

lemma utf8_scalars_four_bytes:
  assumes "0x10000 \<le> c" "c < 0x110000"
  shows "utf8_scalars (utf8_bytes c @ rest) = c # utf8_scalars rest"
proof -
  define q where "q = c div 0x40"
  define p where "p = q div 0x40"
  define h where "h = p div 0x40"
  define m where "m = p mod 0x40"
  define n where "n = q mod 0x40"
  define l where "l = c mod 0x40"
  have cq: "c = q * 0x40 + l" by (simp add: q_def l_def)
  have qp: "q = p * 0x40 + n" by (simp add: p_def n_def)
  have ph: "p = h * 0x40 + m" by (simp add: h_def m_def)
  have c: "c = h * 0x40000 + m * 0x1000 + n * 0x40 + l" using cq qp ph by simp
  have l: "l < 0x40" and m: "m < 0x40" and n: "n < 0x40"
    by (simp_all add: m_def n_def l_def)
  have h: "h < 5" using assms(2) c by linarith
  have h0: "h = 0 \<Longrightarrow> 0x10 \<le> m" using assms(1) c l n by linarith
  have h4: "h = 4 \<Longrightarrow> m < 0x10" using assms(2) c by linarith
  have b: "utf8_bytes c = [0xF0 + h, 0x80 + m, 0x80 + n, 0x80 + l]"
    using assms
    by (simp add: utf8_bytes_def div_4096 div_262144 h_def m_def n_def l_def p_def q_def)
  have snd: "second_lo (0xF0 + h) \<le> 0x80 + m" "0x80 + m \<le> second_hi (0xF0 + h)"
    using h h0 h4 m by (auto simp: second_lo_def second_hi_def)
  have third: "cont (0x80 + n)" "cont (0x80 + l)" using l n by (simp_all add: cont_def)
  have "utf8_scalars ((0xF0 + h) # (0x80 + m) # (0x80 + n) # (0x80 + l) # rest)
        = ((0xF0 + h - 0xF0) * 0x40000 + (0x80 + m - 0x80) * 0x1000
           + (0x80 + n - 0x80) * 0x40 + (0x80 + l - 0x80)) # utf8_scalars rest"
    using h snd third by (intro utf8_scalars_step4) simp_all
  then show ?thesis unfolding b using c by simp
qed


lemma utf8_scalars_bytes:
  assumes "scalar c"
  shows "utf8_scalars (utf8_bytes c @ rest) = c # utf8_scalars rest"
proof -
  consider "c < 0x80" | "0x80 \<le> c" "c < 0x800" | "0x800 \<le> c" "c < 0x10000"
    | "0x10000 \<le> c" "c < 0x110000"
    using assms unfolding scalar_def by linarith
  then show ?thesis
  proof cases
    case 1 then show ?thesis by (rule utf8_scalars_one_byte)
  next
    case 2 then show ?thesis by (rule utf8_scalars_two_bytes)
  next
    case 3 then show ?thesis using assms utf8_scalars_three_bytes by (simp add: scalar_def)
  next
    case 4 then show ?thesis by (rule utf8_scalars_four_bytes)
  qed
qed

lemma utf8_scalars_concat:
  "list_all scalar cs \<Longrightarrow> utf8_scalars (concat (map utf8_bytes cs)) = cs"
  by (induction cs) (simp_all add: utf8_scalars_bytes)

lemma scalar_pair:
  assumes "is_high u" "is_low v"
  shows "scalar (0x10000 + (u - 0xD800) * 0x400 + (v - 0xDC00))"
proof -
  define a where "a = u - 0xD800"
  define b where "b = v - 0xDC00"
  have "a < 0x400" and "b < 0x400"
    using assms by (auto simp: a_def b_def is_high_def is_low_def)
  then have "0x10000 + a * 0x400 + b < 0x110000" and "0xDFFF < 0x10000 + a * 0x400 + b"
    by simp_all
  then show ?thesis unfolding scalar_def a_def b_def by simp
qed

lemma scalar_single: "\<not> is_high u \<Longrightarrow> \<not> is_low u \<Longrightarrow> u < 0x10000 \<Longrightarrow> scalar u"
  unfolding scalar_def is_high_def is_low_def by linarith

lemma scalar_replacement: "scalar 0xFFFD"
  by (simp add: scalar_def)

lemma scalar_values_scalar:
  "list_all (\<lambda>u. u < 0x10000) us \<Longrightarrow> list_all scalar (scalar_values us)"
proof (induction us rule: scalar_values.induct)
  case (1 u v us)
  then show ?case
    by (simp add: scalar_pair scalar_single scalar_replacement)
next
  case (2 u)
  then show ?case by (simp add: scalar_single scalar_replacement)
next
  case 3
  then show ?case by simp
qed

lemma utf8_bytes_small:
  assumes "c < 0x110000"
  shows "list_all (\<lambda>b. b < 0x100) (utf8_bytes c)"
proof -
  have m: "x mod 0x40 < 0x80" for x :: nat
    using mod_less_divisor [of "0x40" x] by linarith
  consider "c < 0x80" | "0x80 \<le> c" "c < 0x800" | "0x800 \<le> c" "c < 0x10000"
    | "0x10000 \<le> c"
    by linarith
  then show ?thesis
  proof cases
    case 1
    then show ?thesis by (simp add: utf8_bytes_def)
  next
    case 2
    then have "c div 0x40 < 0x20" by simp
    with 2 m [of c] show ?thesis by (simp add: utf8_bytes_def)
  next
    case 3
    then have "c div 0x1000 < 0x10" by simp
    with 3 m [of c] m [of "c div 0x40"] show ?thesis by (simp add: utf8_bytes_def)
  next
    case 4
    have "c div 0x40000 < 5" using assms by simp
    with 4 m [of c] m [of "c div 0x40"] m [of "c div 0x1000"] show ?thesis
      by (simp add: utf8_bytes_def)
  qed
qed

lemma utf16_pair:
  assumes "is_high u" "is_low v"
  shows "utf16_units (0x10000 + (u - 0xD800) * 0x400 + (v - 0xDC00)) = [u, v]"
proof -
  define a where "a = u - 0xD800"
  define b where "b = v - 0xDC00"
  have u: "u = 0xD800 + a" and v: "v = 0xDC00 + b" and b: "b < 0x400"
    using assms by (auto simp: a_def b_def is_high_def is_low_def)
  show ?thesis unfolding u v by (simp add: utf16_units_def b)
qed

lemma utf16_single: "\<not> is_high u \<Longrightarrow> \<not> is_low u \<Longrightarrow> u < 0x10000 \<Longrightarrow> utf16_units u = [u]"
  by (simp add: utf16_units_def)

lemma utf16_scalar_values:
  "paired us \<Longrightarrow> list_all (\<lambda>u. u < 0x10000) us
     \<Longrightarrow> concat (map utf16_units (scalar_values us)) = us"
proof (induction us rule: scalar_values.induct)
  case (1 u v us)
  show ?case
  proof (cases "is_high u")
    case True
    with 1 show ?thesis by (simp add: utf16_pair)
  next
    case False
    with 1 show ?thesis by (simp add: utf16_single)
  qed
next
  case (2 u)
  then show ?case by (simp add: utf16_single)
next
  case 3
  then show ?case by simp
qed

lemma unat_code_units: "list_all (\<lambda>u. u < 0x10000) (map unat (s :: jsstring))"
proof -
  have "unat u < 0x10000" for u :: code_unit
    using unsigned_less [of u, where 'a = nat] by simp
  then show ?thesis by (simp add: list_all_iff)
qed

lemma bytes_of_nat_inverse:
  "list_all (\<lambda>b. b < 0x100) bs \<Longrightarrow> map unat (map of_nat bs :: buffer) = bs"
  by (induction bs) (simp_all add: unat_of_nat)

lemma scalar_lt: "scalar c \<Longrightarrow> c < 0x110000"
  by (simp add: scalar_def)

lemma utf8_concat_small:
  "list_all scalar cs \<Longrightarrow> list_all (\<lambda>b. b < 0x100) (concat (map utf8_bytes cs))"
  by (induction cs) (simp_all add: utf8_bytes_small scalar_lt)

lemma utf8_scalars_encode:
  "utf8_scalars (map unat (utf8_encode s)) = scalar_values (map unat s)"
  unfolding utf8_encode_def
  by (simp only: bytes_of_nat_inverse utf8_concat_small utf8_scalars_concat
      scalar_values_scalar unat_code_units)

lemma code_units_of_nat_inverse: "map of_nat (map unat s) = (s :: jsstring)"
  by (induction s) simp_all

lemma utf8_round_trip: "well_formed s \<Longrightarrow> utf8_decode (utf8_encode s) = s"
  unfolding utf8_decode_def well_formed_def
  by (simp only: utf8_scalars_encode utf16_scalar_values unat_code_units
      code_units_of_nat_inverse)

lemma utf8_lone_surrogate: "utf8_encode [0xD800] = utf8_encode [0xFFFD]"
  by (simp add: utf8_encode_def is_high_def is_low_def)

lemma utf8_lone_decode: "utf8_decode (utf8_encode [0xD800]) = [0xFFFD]"
  by (simp add: utf8_encode_def utf8_decode_def is_high_def is_low_def utf8_bytes_def
      cont_def second_lo_def second_hi_def utf16_units_def)

section \<open>The steps of the workflow\<close>

lemma js_inj: "inj js"
proof -
  have "inj (\<lambda>c :: char. (of_nat (of_char c) :: code_unit))"
  proof (rule injI)
    fix a b :: char
    assume e: "(of_nat (of_char a) :: code_unit) = of_nat (of_char b)"
    have lt: "(of_char c :: nat) < 2 ^ 16" for c :: char
    proof -
      have "(of_char c :: nat) mod 256 < 256" by (rule mod_less_divisor) simp
      then have "(of_char c :: nat) < 256" by (simp only: of_char_mod_256)
      then have "(of_char c :: nat) < 65536" by linarith
      then show ?thesis by simp
    qed
    have tb: "take_bit 16 (of_char c :: nat) = of_char c" for c :: char
      using lt [of c] by (rule take_bit_nat_eq_self)
    from e have "take_bit 16 (of_char a :: nat) = take_bit 16 (of_char b :: nat)"
      by (simp add: word_of_nat_eq_iff)
    then have "(of_char a :: nat) = of_char b"
      by (simp only: tb)
    then show "a = b" by simp
  qed
  then have "inj (map (\<lambda>c :: char. (of_nat (of_char c) :: code_unit)))"
    by (rule inj_mapI)
  moreover have "js = map (\<lambda>c :: char. (of_nat (of_char c) :: code_unit))"
    by (rule ext) (simp add: js_def)
  ultimately show ?thesis by simp
qed

lemma js_eq_iff [simp]: "js a = js b \<longleftrightarrow> a = b"
  using js_inj by (auto dest: injD)

lemma deriveKeyFromPassword_Some:
  "pbkdf2 L (utf8_encode pw) s 100000 32 ''sha256'' = Inr k
   \<Longrightarrow> deriveKeyFromPassword L r pw (Some s) = ([DeriveKey], Inr \<lparr>key = k, salt = s\<rparr>)"
  by (simp add: deriveKeyFromPassword_def ENCRYPTION_CONFIG_def)

lemma deriveKeyFromPassword_None:
  "pbkdf2 L (utf8_encode pw) r 100000 32 ''sha256'' = Inr k
   \<Longrightarrow> deriveKeyFromPassword L r pw None = ([DeriveKey], Inr \<lparr>key = k, salt = r\<rparr>)"
  by (simp add: deriveKeyFromPassword_def ENCRYPTION_CONFIG_def)

lemma encryptData_fresh:
  "length k = 32 \<Longrightarrow> cipher_gcm L ''aes-256-gcm'' k n (utf8_encode p) = Inr (c, t)
   \<Longrightarrow> encryptData L n (Text p) (Some k) None
       = ([Encrypt], Inr \<lparr>ciphertext = c, iv = n, tag = t, alg = ''aes-256-gcm''\<rparr>)"
  by (simp add: encryptData_def ENCRYPTION_CONFIG_def)

lemma encryptCSVData_result:
  assumes "pbkdf2 L (utf8_encode w) rs 100000 32 ''sha256'' = Inr k" "length k = 32"
    and "cipher_gcm L ''aes-256-gcm'' k ri (utf8_encode p) = Inr (c, t)"
  shows "encryptCSVData L rs ri p w
         = ([DeriveKey, Encrypt],
            Inr \<lparr>payload = json_stringify L
                    (envelope (to_base64 L rs) (to_base64 L ri) (to_base64 L t)
                       (to_base64 L c) ''aes-256-gcm'' 100000),
                 metadata = \<lparr>meta_algorithm = ''aes-256-gcm'', iterations = 100000\<rparr>\<rparr>)"
  using assms
  by (simp add: encryptCSVData_def encryptWithPassword_def deriveKeyFromPassword_None
      encryptData_fresh and_then_def rethrow_def ENCRYPTION_CONFIG_def)

lemma decryptData_checked:
  "length k = 32 \<Longrightarrow> length n = 16 \<Longrightarrow> length t = 16
   \<Longrightarrow> decryptData L c (Some k) (Some n) (Some t)
       = ([Decrypt], map_sum id utf8_decode (decipher_gcm L ''aes-256-gcm'' k n t c))"
  by (simp add: decryptData_def ENCRYPTION_CONFIG_def split: sum.splits)

lemma decryptWithPassword_result:
  assumes "pbkdf2 L (utf8_encode w) s 100000 32 ''sha256'' = Inr k" "length k = 32"
    and "length n = 16" "length t = 16"
  shows "decryptWithPassword L c w s n t
         = ([DeriveKey, Decrypt],
            case decipher_gcm L ''aes-256-gcm'' k n t c of
              Inl err \<Rightarrow> Inl (JsError (''Decryption failed: '' @ message err))
            | Inr plain \<Rightarrow> Inr (utf8_decode plain))"
  using assms
  by (simp add: decryptWithPassword_def deriveKeyFromPassword_Some decryptData_checked
      and_then_def rethrow_def split: sum.splits)

lemma decryptCSVData_envelope:
  assumes "json_parse L p = Inr (envelope s n t c a i)"
  shows "decryptCSVData L p w
         = rethrow ''CSV decryption failed: ''
             (decryptWithPassword L (from_base64 L c) w (from_base64 L s) (from_base64 L n)
                (from_base64 L t))"
proof -
  have f: "field_buffer L (envelope s n t c a i) ''ciphertext'' = ([], Inr (from_base64 L c))"
    "field_buffer L (envelope s n t c a i) ''salt'' = ([], Inr (from_base64 L s))"
    "field_buffer L (envelope s n t c a i) ''iv'' = ([], Inr (from_base64 L n))"
    "field_buffer L (envelope s n t c a i) ''tag'' = ([], Inr (from_base64 L t))"
    by (simp_all add: field_buffer_def envelope_def pure_step_def buffer_from_def)
  show ?thesis
    by (simp add: decryptCSVData_def assms pure_step_def and_then_def f
        split: prod.splits)
qed

lemma open_sealed:
  assumes "kdf_contract L" "cipher_contract L" "base64_contract L" "json_contract L"
    and "length ri = 16"
  shows "\<exists>e. encryptCSVData L rs ri p w = ([DeriveKey, Encrypt], Inr e)
             \<and> decryptCSVData L (payload e) w
                 = ([DeriveKey, Decrypt], Inr (utf8_decode (utf8_encode p)))"
proof -
  from assms(1) obtain k where k: "pbkdf2 L (utf8_encode w) rs 100000 32 ''sha256'' = Inr k"
    and lk: "length k = 32"
    unfolding kdf_contract_def by blast
  from assms(2) lk assms(5) obtain c t where
    c: "cipher_gcm L ''aes-256-gcm'' k ri (utf8_encode p) = Inr (c, t)"
    and lt: "length t = 16"
    and d: "decipher_gcm L ''aes-256-gcm'' k ri t c = Inr (utf8_encode p)"
    unfolding cipher_contract_def by blast
  have b: "from_base64 L (to_base64 L x) = x" for x
    using assms(3) by (simp add: base64_contract_def)
  have j: "json_parse L (json_stringify L (envelope s n t c a i)) = Inr (envelope s n t c a i)"
    for s n t c a i
    using assms(4) by (simp add: json_contract_def)
  show ?thesis
    by (simp add: encryptCSVData_result [OF k lk c] decryptCSVData_envelope [OF j] b
        decryptWithPassword_result [OF k lk assms(5) lt] d rethrow_def)
qed

subsection \<open>ASCII strings\<close>

lemma paired_below_surrogates: "list_all (\<lambda>u. u < 0xD800) us \<Longrightarrow> paired us"
  by (induction us rule: paired.induct) (simp_all add: is_high_def is_low_def)

lemma of_char_small: "(of_char c :: nat) < 256"
proof -
  have "(of_char c :: nat) mod 256 < 256" by (rule mod_less_divisor) simp
  then show ?thesis by (simp only: of_char_mod_256)
qed

lemma unat_js: "map unat (js s) = (map of_char s :: nat list)"
proof -
  have "unat (of_nat (of_char c) :: code_unit) = of_char c" for c :: char
  proof -
    have "(of_char c :: nat) < 65536" using of_char_small [of c] by linarith
    then show ?thesis by (simp add: unat_of_nat)
  qed
  then show ?thesis by (simp add: js_def)
qed

lemma well_formed_js: "well_formed (js s)"
proof -
  have "(of_char c :: nat) < 0xD800" for c :: char
    using of_char_small [of c] by linarith
  then have "list_all (\<lambda>u. u < 0xD800) (map of_char s :: nat list)"
    by (simp add: list_all_iff)
  then show ?thesis
    unfolding well_formed_def unat_js by (rule paired_below_surrogates)
qed


subsection \<open>Opening what was sealed under another password\<close>

lemma kdf_contract_length:
  "kdf_contract L \<Longrightarrow> pbkdf2 L pw s 100000 32 ''sha256'' = Inr k \<Longrightarrow> length k = 32"
  unfolding kdf_contract_def by (metis sum.inject(2))

lemma cipher_contract_tag:
  "cipher_contract L \<Longrightarrow> length k = 32 \<Longrightarrow> length n = 16
   \<Longrightarrow> cipher_gcm L ''aes-256-gcm'' k n d = Inr (c, t) \<Longrightarrow> length t = 16"
  unfolding cipher_contract_def by (metis sum.inject(2) prod.inject)

lemma open_with_password:
  assumes "kdf_contract L" "cipher_contract L" "base64_contract L" "json_contract L"
    and "length ri = 16"
    and k1: "pbkdf2 L (utf8_encode w1) rs 100000 32 ''sha256'' = Inr k1"
    and c: "cipher_gcm L ''aes-256-gcm'' k1 ri (utf8_encode p) = Inr (c, t)"
    and k2: "pbkdf2 L (utf8_encode w2) rs 100000 32 ''sha256'' = Inr k2"
  shows "decryptCSVData L (payload (projr (snd (encryptCSVData L rs ri p w1)))) w2
         = ([DeriveKey, Decrypt],
            case decipher_gcm L ''aes-256-gcm'' k2 ri t c of
              Inl err \<Rightarrow>
                Inl (JsError (''CSV decryption failed: Decryption failed: '' @ message err))
            | Inr plain \<Rightarrow> Inr (utf8_decode plain))"
proof -
  have l1: "length k1 = 32" and l2: "length k2 = 32"
    using assms(1) k1 k2 by (auto dest: kdf_contract_length)
  have lt: "length t = 16"
    using cipher_contract_tag [OF assms(2) l1 assms(5) c] .
  have b: "from_base64 L (to_base64 L x) = x" for x
    using assms(3) by (simp add: base64_contract_def)
  have j: "json_parse L (json_stringify L (envelope s n t c a i)) = Inr (envelope s n t c a i)"
    for s n t c a i
    using assms(4) by (simp add: json_contract_def)
  show ?thesis
    by (simp add: encryptCSVData_result [OF k1 l1 c] decryptCSVData_envelope [OF j] b
        decryptWithPassword_result [OF k2 l2 assms(5) lt] rethrow_def split: sum.splits)
qed

subsection \<open>The sample library at work\<close>

lemma sample_pbkdf2_value:
  "pbkdf2 sample_lib pw s 100000 32 ''sha256''
   = Inr (replicate 32 (foldr (+) (pw @ s) (of_nat 100000)))"
  by (simp add: sample_lib_def sample_pbkdf2_def)

lemma sample_cipher_value:
  "cipher_gcm sample_lib a k n d
   = Inr (map (\<lambda>b. b XOR sample_pad k n) d,
          sample_mac k n (map (\<lambda>b. b XOR sample_pad k n) d))"
  by (simp add: sample_lib_def sample_cipher_def Let_def)

lemma sample_decipher_rejects:
  "k \<noteq> [] \<Longrightarrow> k' \<noteq> [] \<Longrightarrow> hd k' \<noteq> hd k
   \<Longrightarrow> decipher_gcm sample_lib a k' n (sample_mac k n c) c
       = Inl (JsError ''Unsupported state or unable to authenticate data'')"
  by (cases k; cases k') (simp_all add: sample_lib_def sample_decipher_def sample_mac_def)

subsection \<open>The bytes of ASCII text and of an unpaired surrogate\<close>

lemma scalar_values_below_surrogates:
  "list_all (\<lambda>u. u < 0xD800) us \<Longrightarrow> scalar_values us = us"
  by (induction us rule: scalar_values.induct) (simp_all add: is_high_def is_low_def)

lemma utf8_bytes_ascii: "list_all (\<lambda>u. u < 0x80) us \<Longrightarrow> concat (map utf8_bytes us) = us"
  by (induction us) (simp_all add: utf8_bytes_def)

lemma utf8_encode_ascii:
  assumes "list_all (\<lambda>c. (of_char c :: nat) < 128) s"
  shows "utf8_encode (js s) = map of_char s"
proof -
  have a: "list_all (\<lambda>u. u < 0x80) (map of_char s :: nat list)"
    using assms by (simp add: list_all_iff)
  then have b: "list_all (\<lambda>u. u < 0xD800) (map of_char s :: nat list)"
    by (auto simp: list_all_iff)
  have "map of_nat (map of_char s :: nat list) = (map of_char s :: buffer)"
    by (simp add: of_nat_of_char)
  then show ?thesis
    by (simp only: utf8_encode_def unat_js scalar_values_below_surrogates [OF b]
        utf8_bytes_ascii [OF a])
qed

lemma scalar_values_lone_head:
  "list_all (\<lambda>u. u < 0xD800) us \<Longrightarrow> scalar_values (0xD800 # us) = scalar_values (0xFFFD # us)"
  by (cases us) (simp_all add: is_high_def is_low_def)

lemma utf8_encode_lone_head: "utf8_encode (0xD800 # js s) = utf8_encode (0xFFFD # js s)"
proof -
  have "(of_char c :: nat) < 0xD800" for c :: char
    using of_char_small [of c] by linarith
  then have "list_all (\<lambda>u. u < 0xD800) (map of_char s :: nat list)"
    by (simp add: list_all_iff)
  then have "scalar_values (0xD800 # map unat (js s)) = scalar_values (0xFFFD # map unat (js s))"
    unfolding unat_js by (rule scalar_values_lone_head)
  then show ?thesis by (simp add: utf8_encode_def)
qed

lemma decryptCSVData_password_bytes:
  "utf8_encode w2 = utf8_encode w1 \<Longrightarrow> decryptCSVData L p w2 = decryptCSVData L p w1"
  by (simp add: decryptCSVData_def decryptWithPassword_def deriveKeyFromPassword_def)

subsection \<open>Envelopes and the iteration count\<close>

lemma seal_with_iterations_result:
  assumes "pbkdf2 L (utf8_encode w) s i 32 ''sha256'' = Inr k"
    and "cipher_gcm L ''aes-256-gcm'' k n (utf8_encode p) = Inr (c, t)"
  shows "seal_with_iterations L i s n p w
         = Some (json_stringify L
             (envelope (to_base64 L s) (to_base64 L n) (to_base64 L t) (to_base64 L c)
                ''aes-256-gcm'' i))"
  by (simp add: seal_with_iterations_def assms)

lemma seal_with_configured_iterations:
  assumes "pbkdf2 L (utf8_encode w) rs 100000 32 ''sha256'' = Inr k" "length k = 32"
    and "cipher_gcm L ''aes-256-gcm'' k ri (utf8_encode p) = Inr (c, t)"
  shows "seal_with_iterations L 100000 rs ri p w
         = Some (payload (projr (snd (encryptCSVData L rs ri p w))))"
  by (simp add: encryptCSVData_result [OF assms] seal_with_iterations_result [OF assms(1,3)])

lemma open_envelope_result:
  assumes "json_contract L"
    and "pbkdf2 L (utf8_encode w) (from_base64 L s) 100000 32 ''sha256'' = Inr k"
    and "length k = 32"
    and "length (from_base64 L n) = 16" and "length (from_base64 L t) = 16"
  shows "decryptCSVData L (json_stringify L (envelope s n t c a i)) w
         = ([DeriveKey, Decrypt],
            case decipher_gcm L ''aes-256-gcm'' k (from_base64 L n) (from_base64 L t)
                   (from_base64 L c) of
              Inl err \<Rightarrow>
                Inl (JsError (''CSV decryption failed: Decryption failed: '' @ message err))
            | Inr plain \<Rightarrow> Inr (utf8_decode plain))"
proof -
  have j: "json_parse L (json_stringify L (envelope s n t c a i)) = Inr (envelope s n t c a i)"
    using assms(1) by (simp add: json_contract_def)
  show ?thesis
    by (simp add: decryptCSVData_envelope [OF j]
        decryptWithPassword_result [OF assms(2,3,4,5)] rethrow_def split: sum.splits)
qed

lemma sample_pbkdf2_any:
  "0 < i \<Longrightarrow> pbkdf2 sample_lib pw s i 32 d = Inr (replicate 32 (foldr (+) (pw @ s) (of_nat i)))"
  by (simp add: sample_lib_def sample_pbkdf2_def)

lemma foldr_plus_inj: "foldr (+) xs (a :: byte) = foldr (+) xs b \<longleftrightarrow> a = b"
  by (induction xs) simp_all

lemma sample_base64_inverse: "from_base64 sample_lib (to_base64 sample_lib x) = x"
  using sample_base64_contract by (simp add: base64_contract_def)

subsection \<open>Reading the fields of an envelope\<close>

lemma field_buffer_refused:
  "refused (map_of kvs (js name)) \<Longrightarrow> \<exists>err. field_buffer L (JObj kvs) name = ([], Inl err)"
  by (cases "map_of kvs (js name)" rule: refused.cases)
     (simp_all add: field_buffer_def pure_step_def buffer_from_def)

lemma field_buffer_untraced: "fst (field_buffer L data name) = []"
  by (simp add: field_buffer_def pure_step_def)

lemma field_buffer_string:
  "map_of kvs (js name) = Some (JStr s)
   \<Longrightarrow> field_buffer L (JObj kvs) name = ([], Inr (from_base64 L s))"
  by (simp add: field_buffer_def pure_step_def buffer_from_def)

lemma and_then_untraced:
  "fst m = [] \<Longrightarrow> and_then m f = (case snd m of Inl err \<Rightarrow> ([], Inl err) | Inr x \<Rightarrow> f x)"
  by (cases m; cases "snd m") (auto simp: and_then_def split: prod.splits)

lemma rethrow_fst: "fst (rethrow prefix m) = fst m"
  by (cases m; cases "snd m") (simp_all add: rethrow_def)

lemma rethrow_isl: "isl (snd (rethrow prefix m)) = isl (snd m)"
  by (cases m; cases "snd m") (simp_all add: rethrow_def)

lemma decryptWithPassword_starts:
  "\<exists>ops. fst (decryptWithPassword L c w s n t) = DeriveKey # ops"
  by (simp add: decryptWithPassword_def deriveKeyFromPassword_def rethrow_fst and_then_def
      split: sum.splits prod.splits)

lemma fields_stop_before_crypto:
  assumes "refused (map_of kvs (js ''ciphertext'')) \<or> refused (map_of kvs (js ''salt''))
           \<or> refused (map_of kvs (js ''iv'')) \<or> refused (map_of kvs (js ''tag''))"
  shows "\<exists>err. and_then (field_buffer L (JObj kvs) ''ciphertext'') (\<lambda>ct.
           and_then (field_buffer L (JObj kvs) ''salt'') (\<lambda>s.
           and_then (field_buffer L (JObj kvs) ''iv'') (\<lambda>n.
           and_then (field_buffer L (JObj kvs) ''tag'') (\<lambda>t.
           decryptWithPassword L ct w s n t)))) = ([], Inl err)"
proof -
  have u: "fst (field_buffer L (JObj kvs) name) = []" for name
    by (rule field_buffer_untraced)
  show ?thesis
    using assms
    by (auto simp: and_then_untraced [OF u] split: sum.splits
        dest!: field_buffer_refused [where L = L])
qed

lemma sample_parse_None:
  "json_parse sample_lib None = Inl (JsSyntaxError ''Unexpected end of JSON input'')"
  by (simp add: sample_lib_def)

lemma sample_parse_Some: "json_parse sample_lib (Some v) = Inr v"
  by (simp add: sample_lib_def)

lemma exclamation_not_base64: "\<not> valid_base64 (js ''!!!!'')"
  by (simp add: valid_base64_def base64_alphabet_def js_def)

subsection \<open>Cells of the CSV builder\<close>

lemma cell_cvv: "cell data (js ''cvv'') = Inr (VString (js ''***''))"
  by (simp add: cell_def fieldMap_def fieldMap_own_def)
     (simp add: js_def comma_def dquote_def)

lemma fieldMap_own_cvv_update: "fieldMap_own (data\<lparr>cvv := x\<rparr>) = fieldMap_own data"
  by (simp add: fieldMap_own_def)

lemma cell_cvv_update: "cell (data\<lparr>cvv := x\<rparr>) f = cell data f"
  by (simp add: cell_def fieldMap_def fieldMap_own_cvv_update)

lemma cells_cvv_update: "cells (data\<lparr>cvv := x\<rparr>) fs = cells data fs"
  by (induction fs) (simp_all add: cell_cvv_update split: sum.splits)

lemma buildCSVData_cvv_update: "buildCSVData (data\<lparr>cvv := x\<rparr>) fs = buildCSVData data fs"
  by (simp add: buildCSVData_def cells_cvv_update)

lemma cell_unknown:
  "map_of (fieldMap_own data) f = None \<Longrightarrow> map_of object_prototype f = None
   \<Longrightarrow> cell data f = Inr (VString [])"
  by (simp add: cell_def fieldMap_def)

lemma cell_unknown_witness: "cell mockBillingData (js ''zip'') = Inr (VString [])"
  by (rule cell_unknown) (simp_all add: fieldMap_own_def object_prototype_def)

subsection \<open>What comes back for any string, and further facts used below\<close>

lemma sample_decipher_contract: "decipher_contract sample_lib"
  by (auto simp: decipher_contract_def sample_lib_def sample_cipher_def sample_decipher_def
      Let_def comp_def xor.assoc split: if_splits)

lemma sample_tag_contract: "tag_contract sample_lib"
  by (auto simp: tag_contract_def sample_lib_def sample_decipher_def split: if_splits)

lemma utf16_replace_unpaired:
  "list_all (\<lambda>u. u < 0x10000) us
   \<Longrightarrow> concat (map utf16_units (scalar_values us)) = replace_unpaired us"
proof (induction us rule: scalar_values.induct)
  case (1 u v us)
  have r: "utf16_units 0xFFFD = [0xFFFD]" by (simp add: utf16_units_def)
  show ?case
  proof (cases "is_high u \<and> is_low v")
    case True
    with 1 show ?thesis by (simp add: utf16_pair)
  next
    case False
    with 1 show ?thesis by (auto simp: utf16_single r)
  qed
next
  case (2 u)
  then show ?case by (auto simp: utf16_single utf16_units_def)
next
  case 3
  then show ?case by simp
qed

lemma utf8_decode_encode: "utf8_decode (utf8_encode s) = toWellFormed s"
  unfolding utf8_decode_def toWellFormed_def
  by (simp only: utf8_scalars_encode utf16_replace_unpaired unat_code_units)

lemma replace_unpaired_paired: "paired us \<Longrightarrow> replace_unpaired us = us"
  by (induction us rule: replace_unpaired.induct) (auto split: if_splits)

lemma toWellFormed_well_formed: "well_formed s \<Longrightarrow> toWellFormed s = s"
  unfolding toWellFormed_def well_formed_def
  by (simp only: replace_unpaired_paired code_units_of_nat_inverse)

lemma rethrow_error:
  "snd (rethrow prefix m) = Inl e \<Longrightarrow> \<exists>x. e = JsError (prefix @ x)"
  by (cases m; cases "snd m") (auto simp: rethrow_def)

lemma deriveKeyFromPassword_eq:
  "deriveKeyFromPassword L r w (Some s)
   = ([DeriveKey],
      case pbkdf2 L (utf8_encode w) s 100000 32 ''sha256'' of
        Inl err \<Rightarrow> Inl err
      | Inr k \<Rightarrow> Inr \<lparr>key = k, salt = s\<rparr>)"
  by (simp add: deriveKeyFromPassword_def ENCRYPTION_CONFIG_def)

lemma open_sealed_envelope:
  assumes "kdf_contract L" "cipher_contract L" "base64_contract L" "json_contract L"
    and "length random_iv = 16"
    and "pbkdf2 L (utf8_encode w) random_salt 100000 32 ''sha256'' = Inr k"
    and "cipher_gcm L ''aes-256-gcm'' k random_iv (utf8_encode p) = Inr (c, t)"
  shows "decryptCSVData L
           (json_stringify L
              (envelope (to_base64 L random_salt) (to_base64 L random_iv) (to_base64 L t)
                 (to_base64 L c) a i)) w
         = ([DeriveKey, Decrypt], Inr (toWellFormed p))"
proof -
  have j: "json_parse L (json_stringify L (envelope s n t c a i)) = Inr (envelope s n t c a i)"
    for s n t c a i
    using assms(4) by (simp add: json_contract_def)
  have b: "from_base64 L (to_base64 L x) = x" for x
    using assms(3) by (simp add: base64_contract_def)
  have lk: "length k = 32"
    using assms(1,6) by (rule kdf_contract_length)
  have lt: "length t = 16"
    using cipher_contract_tag [OF assms(2) lk assms(5) assms(7)] .
  have d: "decipher_gcm L ''aes-256-gcm'' k random_iv t c = Inr (utf8_encode p)"
    using assms(2,5,7) lk unfolding cipher_contract_def
    by (metis sum.inject(2) prod.inject)
  show ?thesis
    by (simp add: decryptCSVData_envelope [OF j] b
        decryptWithPassword_result [OF assms(6) lk assms(5) lt] d rethrow_def
        utf8_decode_encode)
qed

lemma sample_cipher_differs:
  "k \<noteq> [] \<Longrightarrow> k' \<noteq> [] \<Longrightarrow> hd k' \<noteq> hd k
   \<Longrightarrow> cipher_gcm sample_lib a k' n d \<noteq> Inr (c, sample_mac k n c)"
  by (cases k; cases k') (auto simp: sample_cipher_value sample_mac_def)

lemma utf8_encode_letters: "utf8_encode (replicate n 0x61) = replicate n 0x61"
proof -
  have u: "map unat (replicate n (0x61 :: code_unit)) = replicate n 0x61"
    by simp
  have a: "list_all (\<lambda>u. u < 0x80) (replicate n (0x61 :: nat))"
    by (simp add: list_all_iff)
  then have b: "list_all (\<lambda>u. u < 0xD800) (replicate n (0x61 :: nat))"
    by (simp add: list_all_iff)
  have "utf8_encode (replicate n 0x61) = map of_nat (replicate n (0x61 :: nat))"
    by (simp only: utf8_encode_def u scalar_values_below_surrogates [OF b]
        utf8_bytes_ascii [OF a])
  then show ?thesis by simp
qed

lemma finite_keys: "finite {k :: buffer. length k = 32}"
  using finite_lists_length_eq [of "UNIV :: byte set" 32] by simp

lemma passwords_outnumber_keys:
  assumes "kdf_contract L"
  shows "\<exists>w1 w2. utf8_encode w1 \<noteq> utf8_encode w2
           \<and> pbkdf2 L (utf8_encode w1) s 100000 32 ''sha256''
             = pbkdf2 L (utf8_encode w2) s 100000 32 ''sha256''"
proof -
  define f where
    "f n = pbkdf2 L (utf8_encode (replicate n 0x61)) s 100000 32 ''sha256''" for n :: nat
  have "range f \<subseteq> Inr ` {k :: buffer. length k = 32}"
    using assms unfolding kdf_contract_def f_def by blast
  then have "finite (range f)"
    using finite_keys by (meson finite_imageI finite_subset)
  then have "\<not> inj f"
    using finite_imageD by blast
  then obtain m n where "m \<noteq> n" "f m = f n"
    unfolding inj_on_def by blast
  moreover from \<open>m \<noteq> n\<close>
  have "utf8_encode (replicate m 0x61) \<noteq> utf8_encode (replicate n 0x61)"
    by (metis utf8_encode_letters length_replicate)
  ultimately show ?thesis unfolding f_def by blast
qed

lemma open_failure_after_derivation:
  assumes "kdf_contract L" "cipher_contract L" "base64_contract L" "json_contract L"
    and "length ri = 16"
    and "pbkdf2 L (utf8_encode w1) rs 100000 32 ''sha256'' = Inr k1"
    and "cipher_gcm L ''aes-256-gcm'' k1 ri (utf8_encode p) = Inr (c, t)"
    and "pbkdf2 L (utf8_encode w2) rs 100000 32 ''sha256'' = Inr k2"
    and "isl (decipher_gcm L ''aes-256-gcm'' k2 ri t c)"
  shows "\<exists>m. decryptCSVData L (payload (projr (snd (encryptCSVData L rs ri p w1)))) w2
             = ([DeriveKey, Decrypt],
                Inl (JsError (''CSV decryption failed: Decryption failed: '' @ m)))"
  using open_with_password [OF assms(1-8)] assms(9)
  by (cases "decipher_gcm L ''aes-256-gcm'' k2 ri t c") auto

lemma some_other_password_opens:
  assumes "kdf_contract L" "cipher_contract L" "base64_contract L" "json_contract L"
    and "length ri = 16"
  shows "\<exists>w1 w2. utf8_encode w1 \<noteq> utf8_encode w2
           \<and> decryptCSVData L (payload (projr (snd (encryptCSVData L rs ri p w1)))) w2
               = ([DeriveKey, Decrypt], Inr (toWellFormed p))"
proof -
  obtain w1 w2 where d: "utf8_encode w1 \<noteq> utf8_encode w2"
    and e: "pbkdf2 L (utf8_encode w1) rs 100000 32 ''sha256''
            = pbkdf2 L (utf8_encode w2) rs 100000 32 ''sha256''"
    using passwords_outnumber_keys [OF assms(1)] by blast
  obtain k where k1: "pbkdf2 L (utf8_encode w1) rs 100000 32 ''sha256'' = Inr k"
    and lk: "length k = 32"
    using assms(1) unfolding kdf_contract_def by blast
  with e have k2: "pbkdf2 L (utf8_encode w2) rs 100000 32 ''sha256'' = Inr k" by simp
  obtain c t where c: "cipher_gcm L ''aes-256-gcm'' k ri (utf8_encode p) = Inr (c, t)"
    and dd: "decipher_gcm L ''aes-256-gcm'' k ri t c = Inr (utf8_encode p)"
    using assms(2,5) lk unfolding cipher_contract_def by blast
  have "decryptCSVData L (payload (projr (snd (encryptCSVData L rs ri p w1)))) w2
        = ([DeriveKey, Decrypt], Inr (toWellFormed p))"
    using open_with_password [OF assms k1 c k2] by (simp add: dd utf8_decode_encode)
  with d show ?thesis by blast
qed

lemma flip_bit_length: "length (flip_bit b i j) = length b"
  by (simp add: flip_bit_def)

lemma flip_bit_differs:
  assumes "i < length b" "j < 8"
  shows "flip_bit b i j \<noteq> b"
proof -
  have "j = 0 \<or> j = 1 \<or> j = 2 \<or> j = 3 \<or> j = 4 \<or> j = 5 \<or> j = 6 \<or> j = 7"
    using assms(2) by linarith
  then have nz: "(push_bit j 1 :: byte) \<noteq> 0"
    by (elim disjE) simp_all
  have "(b ! i) XOR push_bit j 1 \<noteq> b ! i"
  proof
    assume "(b ! i) XOR push_bit j 1 = b ! i"
    then have "((b ! i) XOR push_bit j 1) XOR (b ! i) = (b ! i) XOR (b ! i)" by simp
    then have "(push_bit j 1 :: byte) = 0"
      by (simp add: xor.commute xor.left_commute)
    with nz show False by simp
  qed
  then have "flip_bit b i j ! i \<noteq> b ! i"
    using assms(1) by (simp add: flip_bit_def)
  then show ?thesis by auto
qed

section \<open>Length checks of the cipher unit\<close>

text \<open>
  C10. \<open>decryptData\<close> throws, with no decipher run, when the key is missing or not 32
  bytes, when the iv is missing or not 16 bytes, and when the tag is missing or not 16
  bytes; \<open>encryptData\<close> throws, with no cipher run, when the key is missing or not 32
  bytes. With a 32-byte key, a 16-byte iv and a 16-byte tag none of these branches is
  taken: \<open>decryptData\<close> runs the decipher once and its result is the decipher's, and
  \<open>encryptData\<close> with a 32-byte key runs the cipher once.
\<close>

theorem length_checks_precede_crypto:
  "((case k of None \<Rightarrow> True | Some b \<Rightarrow> length b \<noteq> 32) \<longrightarrow>
      decryptData L ct k n t = ([], Inl (JsError ''Key must be 32 bytes''))
      \<and> encryptData L r d k m = ([], Inl (JsError ''Key must be 32 bytes'')))
   \<and> (length kb = 32 \<and> (case n of None \<Rightarrow> True | Some b \<Rightarrow> length b \<noteq> 16) \<longrightarrow>
      decryptData L ct (Some kb) n t = ([], Inl (JsError ''IV must be 16 bytes'')))
   \<and> (length kb = 32 \<and> length nb = 16
        \<and> (case t of None \<Rightarrow> True | Some b \<Rightarrow> length b \<noteq> 16) \<longrightarrow>
      decryptData L ct (Some kb) (Some nb) t = ([], Inl (JsError ''Tag must be 16 bytes'')))
   \<and> (length kb = 32 \<and> length nb = 16 \<and> length tb = 16 \<longrightarrow>
      decryptData L ct (Some kb) (Some nb) (Some tb)
        = ([Decrypt], map_sum id utf8_decode (decipher_gcm L ''aes-256-gcm'' kb nb tb ct)))
   \<and> (length kb = 32 \<longrightarrow> fst (encryptData L r d (Some kb) m) = [Encrypt])"
  by (auto simp: decryptData_def encryptData_def ENCRYPTION_CONFIG_def Let_def
      split: option.splits sum.splits)

text \<open>
  Each branch on the sample library.
\<close>

theorem length_checks_precede_crypto_witness:
  "decryptData sample_lib [] (Some [1, 2, 3]) (Some (replicate 16 0)) (Some (replicate 16 0))
     = ([], Inl (JsError ''Key must be 32 bytes''))
   \<and> encryptData sample_lib [] (Bytes []) (Some [1, 2, 3]) None
     = ([], Inl (JsError ''Key must be 32 bytes''))
   \<and> decryptData sample_lib [] (Some (replicate 32 0)) (Some [7]) (Some [7])
     = ([], Inl (JsError ''IV must be 16 bytes''))
   \<and> decryptData sample_lib [] (Some (replicate 32 0)) (Some (replicate 16 0)) (Some [7])
     = ([], Inl (JsError ''Tag must be 16 bytes''))
   \<and> decryptData sample_lib [] (Some (replicate 32 0)) (Some (replicate 16 0))
       (Some (replicate 16 0))
     = ([Decrypt], map_sum id utf8_decode
         (decipher_gcm sample_lib ''aes-256-gcm'' (replicate 32 0) (replicate 16 0)
            (replicate 16 0) []))
   \<and> fst (encryptData sample_lib [] (Bytes []) (Some (replicate 32 0)) None) = [Encrypt]"
  using length_checks_precede_crypto
    [of "Some [1, 2, 3]" sample_lib "[]" "Some (replicate 16 0)" "Some (replicate 16 0)"
        "[]" "Bytes []" None "replicate 32 0" "replicate 16 0" "replicate 16 0"]
    length_checks_precede_crypto
    [of "None" sample_lib "[]" "Some [7]" "Some [7]"
        "[]" "Bytes []" None "replicate 32 0" "replicate 16 0" "replicate 16 0"]
  by simp

section \<open>Sealing and opening\<close>

text \<open>
  C1, as the code has it. For every plaintext string, every password and every fresh
  salt and 16-byte iv, \<open>encryptCSVData\<close> succeeds after one key derivation and one
  cipher run, and \<open>decryptCSVData\<close> on its payload with the same password returns,
  after one key derivation and one decipher run, the plaintext with every unpaired
  surrogate replaced by U+FFFD. For a well-formed plaintext (no unpaired surrogate)
  that is exactly the plaintext.
\<close>

theorem round_trip_well_formed:
  assumes "kdf_contract L" "cipher_contract L" "base64_contract L" "json_contract L"
    and "length random_iv = 16"
  shows "\<exists>e. encryptCSVData L random_salt random_iv p w = ([DeriveKey, Encrypt], Inr e)
             \<and> decryptCSVData L (payload e) w = ([DeriveKey, Decrypt], Inr (toWellFormed p))
             \<and> (well_formed p \<longrightarrow>
                  decryptCSVData L (payload e) w = ([DeriveKey, Decrypt], Inr p))"
  using open_sealed [OF assms(1-5), of random_salt p w]
  by (auto simp: utf8_decode_encode toWellFormed_well_formed)

text \<open>
  On the sample library, for the plaintext and the password of the specification's
  scenario.
\<close>

theorem round_trip_well_formed_witness:
  "\<exists>e. encryptCSVData sample_lib (replicate 32 7) (replicate 16 9)
           (js ''city,postal_code'' @ [0x0A] @ js ''San Francisco,94105'')
           (js ''SecurePassword123'') = ([DeriveKey, Encrypt], Inr e)
       \<and> decryptCSVData sample_lib (payload e) (js ''SecurePassword123'')
           = ([DeriveKey, Decrypt],
              Inr (js ''city,postal_code'' @ [0x0A] @ js ''San Francisco,94105''))"
proof -
  have "js ''city,postal_code'' @ [0x0A] @ js ''San Francisco,94105''
        = js (''city,postal_code'' @ [CHR 0x0A] @ ''San Francisco,94105'')"
    by (simp add: js_def)
  then have wf: "well_formed (js ''city,postal_code'' @ [0x0A] @ js ''San Francisco,94105'')"
    by (simp only: well_formed_js)
  have l: "length (replicate 16 (9 :: byte)) = 16" by simp
  show ?thesis
    using round_trip_well_formed [OF sample_kdf_contract sample_cipher_contract
        sample_base64_contract sample_json_contract l, of "replicate 32 7"
        "js ''city,postal_code'' @ [0x0A] @ js ''San Francisco,94105''"
        "js ''SecurePassword123''"] wf
    by blast
qed

text \<open>
  The claim as stated, for every string, fails: the string made of the single unpaired
  surrogate U+D800 is written to the buffer as the bytes of U+FFFD, and opening the
  envelope returns U+FFFD.
\<close>

theorem round_trip_lone_surrogate:
  "snd (decryptCSVData sample_lib
          (payload (projr (snd (encryptCSVData sample_lib (replicate 32 7) (replicate 16 9)
             [0xD800] (js ''SecurePassword123'')))))
          (js ''SecurePassword123''))
   = Inr [0xFFFD]
   \<and> [0xFFFD] \<noteq> ([0xD800] :: jsstring)"
proof -
  obtain e where
    "encryptCSVData sample_lib (replicate 32 7) (replicate 16 9) [0xD800]
       (js ''SecurePassword123'') = ([DeriveKey, Encrypt], Inr e)"
    "decryptCSVData sample_lib (payload e) (js ''SecurePassword123'')
       = ([DeriveKey, Decrypt], Inr (utf8_decode (utf8_encode [0xD800])))"
    using open_sealed [OF sample_kdf_contract sample_cipher_contract sample_base64_contract
        sample_json_contract, of "replicate 16 9" "replicate 32 7" "[0xD800]"
        "js ''SecurePassword123''"]
    by auto
  then show ?thesis by (simp add: utf8_lone_decode)
qed

section \<open>Opening with another password\<close>

text \<open>
  C3, as the code has it. Let an envelope be sealed from plaintext \<open>p\<close> under password
  \<open>w1\<close>, with ciphertext \<open>c\<close> and tag \<open>t\<close>, and let \<open>k2\<close> be the key PBKDF2 derives from
  the UTF-8 bytes of a password \<open>w2\<close> and the envelope's salt. Opening the envelope with
  \<open>w2\<close> fails with the error \<open>CSV decryption failed: Decryption failed: ...\<close>, after
  one key derivation and one decipher run and with no plaintext returned, unless
  \<open>c\<close> and \<open>t\<close> are also what the cipher produces under \<open>k2\<close>, for the same iv and some
  data. When \<open>k2\<close> is the key of \<open>w1\<close> the envelope opens, and it is whenever \<open>w2\<close> has
  the UTF-8 bytes of \<open>w1\<close>. That the passwords differ is not enough for the failure:
  \<open>some_other_password_opens\<close> above shows that under every library some two passwords
  with different bytes open each other's envelopes, since passwords outnumber keys.
\<close>

theorem wrong_password_outcome:
  assumes "kdf_contract L" "cipher_contract L" "base64_contract L" "json_contract L"
    and "decipher_contract L"
    and "length random_iv = 16"
    and "pbkdf2 L (utf8_encode w1) random_salt 100000 32 ''sha256'' = Inr k1"
    and "cipher_gcm L ''aes-256-gcm'' k1 random_iv (utf8_encode p) = Inr (c, t)"
    and "pbkdf2 L (utf8_encode w2) random_salt 100000 32 ''sha256'' = Inr k2"
  shows "((\<forall>d. cipher_gcm L ''aes-256-gcm'' k2 random_iv d \<noteq> Inr (c, t)) \<longrightarrow>
            (\<exists>m. decryptCSVData L
                    (payload (projr (snd (encryptCSVData L random_salt random_iv p w1)))) w2
                  = ([DeriveKey, Decrypt],
                     Inl (JsError (''CSV decryption failed: Decryption failed: '' @ m)))))
         \<and> (k2 = k1 \<longrightarrow>
              decryptCSVData L
                (payload (projr (snd (encryptCSVData L random_salt random_iv p w1)))) w2
              = ([DeriveKey, Decrypt], Inr (toWellFormed p)))
         \<and> (utf8_encode w2 = utf8_encode w1 \<longrightarrow> k2 = k1)"
proof (intro conjI impI)
  have l1: "length k1 = 32" and l2: "length k2 = 32"
    using assms(1,7,9) by (auto dest: kdf_contract_length)
  have lt: "length t = 16"
    using cipher_contract_tag [OF assms(2) l1 assms(6) assms(8)] .
  {
    assume n: "\<forall>d. cipher_gcm L ''aes-256-gcm'' k2 random_iv d \<noteq> Inr (c, t)"
    have "isl (decipher_gcm L ''aes-256-gcm'' k2 random_iv t c)"
    proof (cases "decipher_gcm L ''aes-256-gcm'' k2 random_iv t c")
      case (Inl e)
      then show ?thesis by simp
    next
      case (Inr d)
      then have "cipher_gcm L ''aes-256-gcm'' k2 random_iv d = Inr (c, t)"
        using assms(5) l2 assms(6) lt unfolding decipher_contract_def by blast
      with n show ?thesis by blast
    qed
    then show "\<exists>m. decryptCSVData L
                    (payload (projr (snd (encryptCSVData L random_salt random_iv p w1)))) w2
                  = ([DeriveKey, Decrypt],
                     Inl (JsError (''CSV decryption failed: Decryption failed: '' @ m)))"
      by (rule open_failure_after_derivation [OF assms(1-4) assms(6-9)])
  }
  {
    assume "k2 = k1"
    moreover have "decipher_gcm L ''aes-256-gcm'' k1 random_iv t c = Inr (utf8_encode p)"
      using assms(2,6,8) l1 unfolding cipher_contract_def
      by (metis sum.inject(2) prod.inject)
    ultimately show "decryptCSVData L
                (payload (projr (snd (encryptCSVData L random_salt random_iv p w1)))) w2
              = ([DeriveKey, Decrypt], Inr (toWellFormed p))"
      using open_with_password [OF assms(1-4) assms(6-9)]
      by (simp add: utf8_decode_encode)
  }
  {
    assume "utf8_encode w2 = utf8_encode w1"
    then show "k2 = k1" using assms(7,9) by simp
  }
qed

text \<open>
  On the sample library, \<open>WrongPassword\<close> does not open an envelope sealed under
  \<open>SecurePassword123\<close>.
\<close>

theorem wrong_password_outcome_witness:
  "\<exists>m. decryptCSVData sample_lib
     (payload (projr (snd (encryptCSVData sample_lib (replicate 32 7) (replicate 16 9)
        (js ''a,b'') (js ''SecurePassword123'')))))
     (js ''WrongPassword'')
   = ([DeriveKey, Decrypt],
      Inl (JsError (''CSV decryption failed: Decryption failed: '' @ m)))"
proof -
  define k1 :: buffer where
    "k1 = replicate 32 (foldr (+) (utf8_encode (js ''SecurePassword123'') @ replicate 32 7)
            (of_nat 100000))"
  define k2 :: buffer where
    "k2 = replicate 32 (foldr (+) (utf8_encode (js ''WrongPassword'') @ replicate 32 7)
            (of_nat 100000))"
  define c :: buffer where
    "c = map (\<lambda>b. b XOR sample_pad k1 (replicate 16 9)) (utf8_encode (js ''a,b''))"
  have h1: "pbkdf2 sample_lib (utf8_encode (js ''SecurePassword123'')) (replicate 32 7)
              100000 32 ''sha256'' = Inr k1"
    by (simp only: sample_pbkdf2_value k1_def)
  have h2: "pbkdf2 sample_lib (utf8_encode (js ''WrongPassword'')) (replicate 32 7)
              100000 32 ''sha256'' = Inr k2"
    by (simp only: sample_pbkdf2_value k2_def)
  have h3: "cipher_gcm sample_lib ''aes-256-gcm'' k1 (replicate 16 9) (utf8_encode (js ''a,b''))
            = Inr (c, sample_mac k1 (replicate 16 9) c)"
    by (simp only: sample_cipher_value c_def)
  have e1: "utf8_encode (js ''SecurePassword123'') = map of_char ''SecurePassword123''"
    and e2: "utf8_encode (js ''WrongPassword'') = map of_char ''WrongPassword''"
    by (rule utf8_encode_ascii, simp)+
  have "hd k2 \<noteq> hd k1" "k1 \<noteq> []" "k2 \<noteq> []"
    by (simp_all add: k1_def k2_def e1 e2)
  then have r: "\<forall>d. cipher_gcm sample_lib ''aes-256-gcm'' k2 (replicate 16 9) d
                  \<noteq> Inr (c, sample_mac k1 (replicate 16 9) c)"
    by (simp add: sample_cipher_differs)
  have l: "length (replicate 16 (9 :: byte)) = 16" by simp
  show ?thesis
    by (rule wrong_password_outcome [OF sample_kdf_contract sample_cipher_contract
          sample_base64_contract sample_json_contract sample_decipher_contract l h1 h3 h2,
          THEN conjunct1, THEN mp, OF r])
qed

text \<open>
  The claim as stated, for every pair of distinct passwords, fails: a password that
  starts with the unpaired surrogate U+D800 and the password that has U+FFFD in its
  place are different strings with the same UTF-8 bytes, so each opens what the other
  sealed.
\<close>

theorem wrong_password_same_bytes:
  "0xD800 # js ''ecret123'' \<noteq> 0xFFFD # js ''ecret123''
   \<and> snd (decryptCSVData sample_lib
            (payload (projr (snd (encryptCSVData sample_lib (replicate 32 7) (replicate 16 9)
               (js ''a,b'') (0xD800 # js ''ecret123'')))))
            (0xFFFD # js ''ecret123''))
       = Inr (js ''a,b'')"
proof -
  obtain e where
    "encryptCSVData sample_lib (replicate 32 7) (replicate 16 9) (js ''a,b'')
       (0xD800 # js ''ecret123'') = ([DeriveKey, Encrypt], Inr e)"
    "decryptCSVData sample_lib (payload e) (0xD800 # js ''ecret123'')
       = ([DeriveKey, Decrypt], Inr (utf8_decode (utf8_encode (js ''a,b''))))"
    using open_sealed [OF sample_kdf_contract sample_cipher_contract sample_base64_contract
        sample_json_contract, of "replicate 16 9" "replicate 32 7" "js ''a,b''"
        "0xD800 # js ''ecret123''"]
    by auto
  moreover have "decryptCSVData sample_lib (payload e) (0xFFFD # js ''ecret123'')
      = decryptCSVData sample_lib (payload e) (0xD800 # js ''ecret123'')"
    by (rule decryptCSVData_password_bytes) (simp only: utf8_encode_lone_head)
  ultimately show ?thesis
    by (simp add: utf8_round_trip well_formed_js)
qed

section \<open>The iteration count of an envelope\<close>

text \<open>
  C4, as the code has it. \<open>decryptCSVData\<close> derives the key from the password, the salt
  stored in the envelope and the configured iteration count 100000; it reads neither
  the \<open>iterations\<close> nor the \<open>algorithm\<close> field. An envelope sealed with 100000
  iterations opens with the right password whatever algorithm and count it records;
  opening any envelope is \<open>decryptWithPassword\<close> on its four decoded byte fields, so
  two envelopes that differ only in the recorded algorithm and count open alike; and
  the key derivation of that call is PBKDF2 with 100000 iterations.
\<close>

theorem open_uses_configured_iterations:
  assumes "kdf_contract L" "cipher_contract L" "base64_contract L" "json_contract L"
    and "length random_iv = 16"
    and "pbkdf2 L (utf8_encode w) random_salt 100000 32 ''sha256'' = Inr k"
    and "cipher_gcm L ''aes-256-gcm'' k random_iv (utf8_encode p) = Inr (c, t)"
  shows "decryptCSVData L
           (json_stringify L
              (envelope (to_base64 L random_salt) (to_base64 L random_iv) (to_base64 L t)
                 (to_base64 L c) a i)) w
         = ([DeriveKey, Decrypt], Inr (toWellFormed p))
       \<and> (\<forall>s' n' t' c' a' i'.
             decryptCSVData L (json_stringify L (envelope s' n' t' c' a' i')) w
             = rethrow ''CSV decryption failed: ''
                 (decryptWithPassword L (from_base64 L c') w (from_base64 L s')
                    (from_base64 L n') (from_base64 L t')))
       \<and> (\<forall>s' n' t' c' a' i' a'' i''.
             decryptCSVData L (json_stringify L (envelope s' n' t' c' a' i')) w
             = decryptCSVData L (json_stringify L (envelope s' n' t' c' a'' i'')) w)
       \<and> (\<forall>r s'. deriveKeyFromPassword L r w (Some s')
             = ([DeriveKey],
                case pbkdf2 L (utf8_encode w) s' 100000 32 ''sha256'' of
                  Inl err \<Rightarrow> Inl err
                | Inr k' \<Rightarrow> Inr \<lparr>key = k', salt = s'\<rparr>))"
proof -
  have j: "json_parse L (json_stringify L (envelope s n t c a i)) = Inr (envelope s n t c a i)"
    for s n t c a i
    using assms(4) by (simp add: json_contract_def)
  have g: "decryptCSVData L (json_stringify L (envelope s' n' t' c' a' i')) w
             = rethrow ''CSV decryption failed: ''
                 (decryptWithPassword L (from_base64 L c') w (from_base64 L s')
                    (from_base64 L n') (from_base64 L t'))" for s' n' t' c' a' i'
    by (rule decryptCSVData_envelope [OF j])
  have alike: "decryptCSVData L (json_stringify L (envelope s' n' t' c' a' i')) w
             = decryptCSVData L (json_stringify L (envelope s' n' t' c' a'' i'')) w"
    for s' n' t' c' a' i' a'' i''
    by (simp only: g)
  show ?thesis
    by (intro conjI allI)
       (rule open_sealed_envelope [OF assms] g alike deriveKeyFromPassword_eq)+
qed

text \<open>
  On the sample library, an envelope sealed with 100000 iterations that records the
  count 1 and another algorithm is opened by the right password.
\<close>

theorem open_uses_configured_iterations_witness:
  "decryptCSVData sample_lib
     (json_stringify sample_lib
        (envelope (to_base64 sample_lib (replicate 32 7)) (to_base64 sample_lib (replicate 16 9))
           (to_base64 sample_lib
              (snd (projr (cipher_gcm sample_lib ''aes-256-gcm''
                 (projr (pbkdf2 sample_lib (utf8_encode (js ''SecurePassword123''))
                    (replicate 32 7) 100000 32 ''sha256''))
                 (replicate 16 9) (utf8_encode (js ''a,b''))))))
           (to_base64 sample_lib
              (fst (projr (cipher_gcm sample_lib ''aes-256-gcm''
                 (projr (pbkdf2 sample_lib (utf8_encode (js ''SecurePassword123''))
                    (replicate 32 7) 100000 32 ''sha256''))
                 (replicate 16 9) (utf8_encode (js ''a,b''))))))
           ''aes-128-cbc'' 1))
     (js ''SecurePassword123'')
   = ([DeriveKey, Decrypt], Inr (js ''a,b''))"
proof -
  define k :: buffer where
    "k = projr (pbkdf2 sample_lib (utf8_encode (js ''SecurePassword123''))
                    (replicate 32 7) 100000 32 ''sha256'')"
  define r where
    "r = projr (cipher_gcm sample_lib ''aes-256-gcm'' k (replicate 16 9)
                  (utf8_encode (js ''a,b'')))"
  have hk: "pbkdf2 sample_lib (utf8_encode (js ''SecurePassword123'')) (replicate 32 7)
              100000 32 ''sha256'' = Inr k"
    unfolding k_def by (simp only: sample_pbkdf2_value sum.sel)
  have hc: "cipher_gcm sample_lib ''aes-256-gcm'' k (replicate 16 9) (utf8_encode (js ''a,b''))
            = Inr (fst r, snd r)"
    unfolding r_def by (simp only: sample_cipher_value sum.sel prod.collapse)
  have l: "length (replicate 16 (9 :: byte)) = 16" by simp
  have "toWellFormed (js ''a,b'') = js ''a,b''"
    by (rule toWellFormed_well_formed) (rule well_formed_js)
  then show ?thesis
    using open_uses_configured_iterations [OF sample_kdf_contract sample_cipher_contract
        sample_base64_contract sample_json_contract l hk hc, THEN conjunct1,
        of "''aes-128-cbc''" 1]
    by (simp only: k_def r_def)
qed

text \<open>
  The claim as stated fails: an envelope sealed with 1 iteration, which records that
  count, is not opened by the right password, because the key is derived with 100000
  iterations.
\<close>

theorem recorded_iterations_not_used:
  "snd (decryptCSVData sample_lib
          (the (seal_with_iterations sample_lib 1 (replicate 32 7) (replicate 16 9)
                  (js ''a,b'') (js ''SecurePassword123'')))
          (js ''SecurePassword123''))
   = Inl (JsError ''CSV decryption failed: Decryption failed: Unsupported state or unable to authenticate data'')"
proof -
  define pw :: buffer where "pw = utf8_encode (js ''SecurePassword123'')"
  define k1 :: buffer where "k1 = replicate 32 (foldr (+) (pw @ replicate 32 7) (of_nat 1))"
  define k :: buffer where "k = replicate 32 (foldr (+) (pw @ replicate 32 7) (of_nat 100000))"
  define c :: buffer where
    "c = map (\<lambda>b. b XOR sample_pad k1 (replicate 16 9)) (utf8_encode (js ''a,b''))"
  define t :: buffer where "t = sample_mac k1 (replicate 16 9) c"
  have h1: "pbkdf2 sample_lib (utf8_encode (js ''SecurePassword123'')) (replicate 32 7) 1 32
              ''sha256'' = Inr k1"
    unfolding k1_def pw_def by (rule sample_pbkdf2_any) simp
  have h3: "cipher_gcm sample_lib ''aes-256-gcm'' k1 (replicate 16 9) (utf8_encode (js ''a,b''))
            = Inr (c, t)"
    by (simp only: sample_cipher_value c_def t_def)
  have h: "pbkdf2 sample_lib (utf8_encode (js ''SecurePassword123''))
             (from_base64 sample_lib (to_base64 sample_lib (replicate 32 7)))
             100000 32 ''sha256'' = Inr k"
    by (simp only: sample_base64_inverse sample_pbkdf2_value k_def pw_def)
  have "hd k \<noteq> hd k1" "k1 \<noteq> []" "k \<noteq> []"
    by (simp_all add: k1_def k_def foldr_plus_inj del: foldr_append foldr_replicate)
  then have r: "decipher_gcm sample_lib ''aes-256-gcm'' k (replicate 16 9) t c
                = Inl (JsError ''Unsupported state or unable to authenticate data'')"
    unfolding t_def by (simp add: sample_decipher_rejects)
  have lk: "length k = 32" by (simp add: k_def)
  have ln: "length (from_base64 sample_lib (to_base64 sample_lib (replicate 16 (9 :: byte)))) = 16"
    by (simp only: sample_base64_inverse length_replicate)
  have lt: "length (from_base64 sample_lib (to_base64 sample_lib t)) = 16"
    by (simp only: sample_base64_inverse t_def sample_mac_def length_replicate)
  show ?thesis
    by (simp only: seal_with_iterations_result [OF h1 h3] option.sel
        open_envelope_result [OF sample_json_contract h lk ln lt] sample_base64_inverse r
        snd_conv sum.case message.simps append_Nil append_Cons)
qed

section \<open>Key derivation\<close>

text \<open>
  C6, as the code has it. \<open>deriveKeyFromPassword\<close> takes a password and an optional
  salt only: the key length 32 and the iteration count 100000 are fixed, positive
  constants of the configuration, and the length of a salt that is passed is not
  checked. For every password and every salt of any length the call derives a
  32-byte key with that salt, and with no salt it uses the fresh random one; it
  signals no parameter error.
\<close>

theorem derive_accepts_any_salt:
  assumes "kdf_contract L"
  shows "\<exists>k. length k = 32
           \<and> deriveKeyFromPassword L random_salt password salt_arg
               = ([DeriveKey],
                  Inr \<lparr>key = k,
                       salt = (case salt_arg of None \<Rightarrow> random_salt | Some b \<Rightarrow> b)\<rparr>)"
proof -
  obtain k where
    "pbkdf2 L (utf8_encode password)
       (case salt_arg of None \<Rightarrow> random_salt | Some b \<Rightarrow> b) 100000 32 ''sha256'' = Inr k"
    "length k = 32"
    using assms unfolding kdf_contract_def by blast
  then show ?thesis
    by (cases salt_arg)
       (auto simp: deriveKeyFromPassword_Some deriveKeyFromPassword_None)
qed

text \<open>
  On the sample library, with a salt of one byte.
\<close>

theorem derive_accepts_any_salt_witness:
  "\<exists>k. length k = 32
       \<and> deriveKeyFromPassword sample_lib (replicate 32 7) (js ''SecurePassword123'') (Some [1])
           = ([DeriveKey], Inr \<lparr>key = k, salt = [1]\<rparr>)"
  using derive_accepts_any_salt [OF sample_kdf_contract, where random_salt = "replicate 32 7"
      and password = "js ''SecurePassword123''" and salt_arg = "Some [1]"]
  by simp

text \<open>
  The claim as stated fails: a salt of one byte, not 32, is accepted and a key is
  returned.
\<close>

theorem short_salt_accepted:
  "length ([1] :: buffer) \<noteq> 32
   \<and> \<not> isl (snd (deriveKeyFromPassword sample_lib (replicate 32 7)
                    (js ''SecurePassword123'') (Some [1])))"
  by (simp add: deriveKeyFromPassword_Some [OF sample_pbkdf2_value])

text \<open>
  C8. Key derivation is deterministic: with the same password and the same salt,
  every call of \<open>deriveKeyFromPassword\<close>, whatever the random source would have
  produced, returns the same 32-byte key and that salt.
\<close>

theorem derive_deterministic:
  assumes "kdf_contract L"
  shows "\<exists>k. length k = 32
           \<and> (\<forall>r. deriveKeyFromPassword L r password (Some s)
                     = ([DeriveKey], Inr \<lparr>key = k, salt = s\<rparr>))"
proof -
  obtain k where "pbkdf2 L (utf8_encode password) s 100000 32 ''sha256'' = Inr k"
    "length k = 32"
    using assms unfolding kdf_contract_def by blast
  then show ?thesis
    by (auto simp: deriveKeyFromPassword_Some)
qed

text \<open>
  On the sample library, for a 32-byte salt.
\<close>

theorem derive_deterministic_witness:
  "\<exists>k. length k = 32
       \<and> (\<forall>r. deriveKeyFromPassword sample_lib r (js ''SecurePassword123'')
                   (Some (replicate 32 7))
                 = ([DeriveKey], Inr \<lparr>key = k, salt = replicate 32 7\<rparr>))"
  using derive_deterministic [OF sample_kdf_contract, where password = "js ''SecurePassword123''"
      and s = "replicate 32 7"]
  by simp

section \<open>What \<open>encryptData\<close> returns\<close>

text \<open>
  C7. For every data (a string, taken as its UTF-8 bytes, or a buffer) and every
  32-byte key, \<open>encryptData\<close> runs the cipher once on the key, the iv in use and the
  data, and what it returns is the cipher's output: the ciphertext in the field
  \<open>ciphertext\<close> and the tag in a field of its own, \<open>tag\<close>, with the iv and the algorithm
  name, and an error of the cipher as it is. With no iv passed, the iv is the fresh
  random one of 16 bytes, the call succeeds, the ciphertext is as long as the data and
  the tag has 16 bytes.
\<close>

theorem encryptData_lengths:
  assumes "cipher_contract L" and "length k = 32" and "length random_iv = 16"
  shows "(\<forall>iv_arg.
            encryptData L random_iv d (Some k) iv_arg
            = ([Encrypt],
               case cipher_gcm L ''aes-256-gcm'' k
                      (case iv_arg of None \<Rightarrow> random_iv | Some b \<Rightarrow> b)
                      (case d of Text s \<Rightarrow> utf8_encode s | Bytes b \<Rightarrow> b) of
                 Inl err \<Rightarrow> Inl err
               | Inr (c, t) \<Rightarrow>
                   Inr \<lparr>ciphertext = c,
                        iv = (case iv_arg of None \<Rightarrow> random_iv | Some b \<Rightarrow> b),
                        tag = t, alg = ''aes-256-gcm''\<rparr>))
         \<and> (\<exists>c t. cipher_gcm L ''aes-256-gcm'' k random_iv
                      (case d of Text s \<Rightarrow> utf8_encode s | Bytes b \<Rightarrow> b) = Inr (c, t)
                  \<and> encryptData L random_iv d (Some k) None
                      = ([Encrypt],
                         Inr \<lparr>ciphertext = c, iv = random_iv, tag = t, alg = ''aes-256-gcm''\<rparr>)
                  \<and> length c = length (case d of Text s \<Rightarrow> utf8_encode s | Bytes b \<Rightarrow> b)
                  \<and> length t = 16)"
proof -
  define b where "b = (case d of Text s \<Rightarrow> utf8_encode s | Bytes b \<Rightarrow> b)"
  have g: "encryptData L random_iv d (Some k) iv_arg
            = ([Encrypt],
               case cipher_gcm L ''aes-256-gcm'' k
                      (case iv_arg of None \<Rightarrow> random_iv | Some b \<Rightarrow> b) b of
                 Inl err \<Rightarrow> Inl err
               | Inr (c, t) \<Rightarrow>
                   Inr \<lparr>ciphertext = c,
                        iv = (case iv_arg of None \<Rightarrow> random_iv | Some b \<Rightarrow> b),
                        tag = t, alg = ''aes-256-gcm''\<rparr>)" for iv_arg
    using assms(2)
    by (simp add: encryptData_def ENCRYPTION_CONFIG_def b_def Let_def
        split: sum.splits prod.splits)
  obtain c t where c: "cipher_gcm L ''aes-256-gcm'' k random_iv b = Inr (c, t)"
    "length c = length b" "length t = 16"
    using assms unfolding cipher_contract_def by blast
  have "encryptData L random_iv d (Some k) None
        = ([Encrypt], Inr \<lparr>ciphertext = c, iv = random_iv, tag = t, alg = ''aes-256-gcm''\<rparr>)"
    by (simp add: g c)
  with c g show ?thesis unfolding b_def [symmetric] by blast
qed

text \<open>
  On the sample library, for the data \<open>a,b\<close>.
\<close>

theorem encryptData_lengths_witness:
  "\<exists>c t. cipher_gcm sample_lib ''aes-256-gcm'' (replicate 32 5) (replicate 16 9)
            (utf8_encode (js ''a,b'')) = Inr (c, t)
         \<and> encryptData sample_lib (replicate 16 9) (Text (js ''a,b'')) (Some (replicate 32 5)) None
             = ([Encrypt],
                Inr \<lparr>ciphertext = c, iv = replicate 16 9, tag = t, alg = ''aes-256-gcm''\<rparr>)
         \<and> length c = length (utf8_encode (js ''a,b''))
         \<and> length t = 16"
  using encryptData_lengths [OF sample_cipher_contract, where k = "replicate 32 5"
      and random_iv = "replicate 16 9" and d = "Text (js ''a,b'')", THEN conjunct2]
  by simp

section \<open>Opening a malformed envelope\<close>

text \<open>
  C5, as the code has it. When \<open>JSON.parse\<close> throws, when the parsed value is not an
  object, or when one of the fields \<open>ciphertext\<close>, \<open>salt\<close>, \<open>iv\<close>, \<open>tag\<close> is missing,
  \<open>null\<close>, a boolean or a number, \<open>decryptCSVData\<close> fails with an \<open>Error\<close> whose message
  starts with \<open>CSV decryption failed: \<close>, before any key derivation or decipher run.
  When the four fields are strings, whatever their content, no format check is made:
  each is decoded by \<open>Buffer.from(_, 'base64')\<close>, the call continues as
  \<open>decryptWithPassword\<close> on the decoded bytes, and its first step is the key
  derivation. Every error \<open>decryptCSVData\<close> throws, whatever its cause, is an \<open>Error\<close>
  whose message starts with \<open>CSV decryption failed: \<close>.
\<close>

theorem malformed_envelope_outcome:
  "(json_parse L p = Inl err \<longrightarrow>
      decryptCSVData L p w = ([], Inl (JsError (''CSV decryption failed: '' @ message err))))
   \<and> (json_parse L p = Inr v \<and> (\<forall>kvs. v \<noteq> JObj kvs) \<longrightarrow>
      (\<exists>m. decryptCSVData L p w = ([], Inl (JsError (''CSV decryption failed: '' @ m)))))
   \<and> (json_parse L p = Inr (JObj kvs)
       \<and> (refused (map_of kvs (js ''ciphertext'')) \<or> refused (map_of kvs (js ''salt''))
          \<or> refused (map_of kvs (js ''iv'')) \<or> refused (map_of kvs (js ''tag''))) \<longrightarrow>
      (\<exists>m. decryptCSVData L p w = ([], Inl (JsError (''CSV decryption failed: '' @ m)))))
   \<and> (json_parse L p = Inr (JObj kvs)
       \<and> map_of kvs (js ''ciphertext'') = Some (JStr c) \<and> map_of kvs (js ''salt'') = Some (JStr s)
       \<and> map_of kvs (js ''iv'') = Some (JStr n) \<and> map_of kvs (js ''tag'') = Some (JStr t) \<longrightarrow>
      decryptCSVData L p w
        = rethrow ''CSV decryption failed: ''
            (decryptWithPassword L (from_base64 L c) w (from_base64 L s) (from_base64 L n)
               (from_base64 L t))
      \<and> hd (fst (decryptCSVData L p w)) = DeriveKey)
   \<and> (\<forall>e. snd (decryptCSVData L p w) = Inl e \<longrightarrow>
         (\<exists>m. e = JsError (''CSV decryption failed: '' @ m)))"
proof (intro conjI impI allI)
  assume "json_parse L p = Inl err"
  then show "decryptCSVData L p w
      = ([], Inl (JsError (''CSV decryption failed: '' @ message err)))"
    by (simp add: decryptCSVData_def pure_step_def and_then_def rethrow_def)
next
  assume a: "json_parse L p = Inr v \<and> (\<forall>kvs. v \<noteq> JObj kvs)"
  then obtain e where "field_buffer L v ''ciphertext'' = ([], Inl e)"
    by (cases v) (simp_all add: field_buffer_def pure_step_def buffer_from_def)
  then have "decryptCSVData L p w
      = ([], Inl (JsError (''CSV decryption failed: '' @ message e)))"
    using a by (simp add: decryptCSVData_def pure_step_def and_then_def rethrow_def)
  then show "\<exists>m. decryptCSVData L p w = ([], Inl (JsError (''CSV decryption failed: '' @ m)))"
    by blast
next
  assume a: "json_parse L p = Inr (JObj kvs)
       \<and> (refused (map_of kvs (js ''ciphertext'')) \<or> refused (map_of kvs (js ''salt''))
          \<or> refused (map_of kvs (js ''iv'')) \<or> refused (map_of kvs (js ''tag'')))"
  then obtain e where e: "and_then (field_buffer L (JObj kvs) ''ciphertext'') (\<lambda>ct.
           and_then (field_buffer L (JObj kvs) ''salt'') (\<lambda>s.
           and_then (field_buffer L (JObj kvs) ''iv'') (\<lambda>n.
           and_then (field_buffer L (JObj kvs) ''tag'') (\<lambda>t.
           decryptWithPassword L ct w s n t)))) = ([], Inl e)"
    using fields_stop_before_crypto [of kvs L w] by blast
  have "decryptCSVData L p w = ([], Inl (JsError (''CSV decryption failed: '' @ message e)))"
    using a by (simp add: decryptCSVData_def pure_step_def and_then_untraced e rethrow_def)
  then show "\<exists>m. decryptCSVData L p w = ([], Inl (JsError (''CSV decryption failed: '' @ m)))"
    by blast
next
  assume a: "json_parse L p = Inr (JObj kvs)
       \<and> map_of kvs (js ''ciphertext'') = Some (JStr c) \<and> map_of kvs (js ''salt'') = Some (JStr s)
       \<and> map_of kvs (js ''iv'') = Some (JStr n) \<and> map_of kvs (js ''tag'') = Some (JStr t)"
  then show d: "decryptCSVData L p w
        = rethrow ''CSV decryption failed: ''
            (decryptWithPassword L (from_base64 L c) w (from_base64 L s) (from_base64 L n)
               (from_base64 L t))"
    by (simp add: decryptCSVData_def pure_step_def and_then_untraced field_buffer_string)
  show "hd (fst (decryptCSVData L p w)) = DeriveKey"
    using decryptWithPassword_starts [of L "from_base64 L c" w "from_base64 L s"
        "from_base64 L n" "from_base64 L t"]
    by (auto simp: d rethrow_fst)
next
  fix e
  assume "snd (decryptCSVData L p w) = Inl e"
  then show "\<exists>m. e = JsError (''CSV decryption failed: '' @ m)"
    unfolding decryptCSVData_def by (rule rethrow_error)
qed

text \<open>
  On the sample library: a text that is not JSON, the JSON string \<open>salt\<close>, an object
  without the field \<open>iv\<close>, and an object with all four fields, which fails after the
  key derivation.
\<close>

theorem malformed_envelope_outcome_witness:
  "decryptCSVData sample_lib None (js ''SecurePassword123'')
     = ([], Inl (JsError ''CSV decryption failed: Unexpected end of JSON input''))
   \<and> (\<exists>m. decryptCSVData sample_lib (Some (JStr (js ''salt''))) (js ''SecurePassword123'')
            = ([], Inl (JsError (''CSV decryption failed: '' @ m))))
   \<and> (\<exists>m. decryptCSVData sample_lib
             (Some (JObj [(js ''salt'', JStr (js ''AAAA'')), (js ''tag'', JStr (js ''AAAA'')),
                          (js ''ciphertext'', JStr (js ''AAAA''))]))
             (js ''SecurePassword123'')
            = ([], Inl (JsError (''CSV decryption failed: '' @ m))))
   \<and> hd (fst (decryptCSVData sample_lib
            (Some (envelope (js ''AAAA'') (js ''AAAA'') (js ''AAAA'') (js ''AAAA'')
                     ''aes-256-gcm'' 100000))
            (js ''SecurePassword123''))) = DeriveKey
   \<and> (\<exists>m. snd (decryptCSVData sample_lib
            (Some (envelope (js ''AAAA'') (js ''AAAA'') (js ''AAAA'') (js ''AAAA'')
                     ''aes-256-gcm'' 100000))
            (js ''SecurePassword123''))
          = Inl (JsError (''CSV decryption failed: '' @ m)))"
proof -
  note T = malformed_envelope_outcome [where L = sample_lib and w = "js ''SecurePassword123''"]
  have a: "decryptCSVData sample_lib None (js ''SecurePassword123'')
     = ([], Inl (JsError ''CSV decryption failed: Unexpected end of JSON input''))"
    using T [where p = None and err = "JsSyntaxError ''Unexpected end of JSON input''",
        THEN conjunct1]
    by (simp add: sample_parse_None)
  have b: "\<exists>m. decryptCSVData sample_lib (Some (JStr (js ''salt''))) (js ''SecurePassword123'')
            = ([], Inl (JsError (''CSV decryption failed: '' @ m)))"
    by (rule T [where v = "JStr (js ''salt'')", THEN conjunct2, THEN conjunct1, THEN mp])
       (simp add: sample_parse_Some)
  have c: "\<exists>m. decryptCSVData sample_lib
             (Some (JObj [(js ''salt'', JStr (js ''AAAA'')), (js ''tag'', JStr (js ''AAAA'')),
                          (js ''ciphertext'', JStr (js ''AAAA''))]))
             (js ''SecurePassword123'')
            = ([], Inl (JsError (''CSV decryption failed: '' @ m)))"
    by (rule T [where kvs = "[(js ''salt'', JStr (js ''AAAA'')), (js ''tag'', JStr (js ''AAAA'')),
                          (js ''ciphertext'', JStr (js ''AAAA''))]",
          THEN conjunct2, THEN conjunct2, THEN conjunct1, THEN mp])
       (simp add: sample_parse_Some)
  let ?p = "Some (envelope (js ''AAAA'') (js ''AAAA'') (js ''AAAA'') (js ''AAAA'')
                     ''aes-256-gcm'' 100000)"
  have d: "hd (fst (decryptCSVData sample_lib ?p (js ''SecurePassword123''))) = DeriveKey"
    by (rule T [where kvs = "[(js ''salt'', JStr (js ''AAAA'')), (js ''iv'', JStr (js ''AAAA'')),
                  (js ''tag'', JStr (js ''AAAA'')), (js ''ciphertext'', JStr (js ''AAAA'')),
                  (js ''algorithm'', JStr (js ''aes-256-gcm'')),
                  (js ''iterations'', JNum (int 100000))]"
          and c = "js ''AAAA''" and s = "js ''AAAA''" and n = "js ''AAAA''" and t = "js ''AAAA''",
          THEN conjunct2, THEN conjunct2, THEN conjunct2, THEN conjunct1, THEN mp,
          THEN conjunct2])
       (simp add: sample_parse_Some envelope_def)
  have "snd (decryptCSVData sample_lib ?p (js ''SecurePassword123''))
        = Inl (JsError ''CSV decryption failed: Decryption failed: IV must be 16 bytes'')"
  proof -
    have j: "json_parse sample_lib ?p
           = Inr (envelope (js ''AAAA'') (js ''AAAA'') (js ''AAAA'') (js ''AAAA'')
                ''aes-256-gcm'' 100000)"
      by (rule sample_parse_Some)
    have l: "length (from_base64 sample_lib (js ''AAAA'')) = 4"
      by (simp add: sample_lib_def js_def)
    have "decryptWithPassword sample_lib (from_base64 sample_lib (js ''AAAA''))
          (js ''SecurePassword123'') (from_base64 sample_lib (js ''AAAA''))
          (from_base64 sample_lib (js ''AAAA'')) (from_base64 sample_lib (js ''AAAA''))
        = ([DeriveKey], Inl (JsError ''Decryption failed: IV must be 16 bytes''))"
      by (simp add: decryptWithPassword_def deriveKeyFromPassword_Some [OF sample_pbkdf2_value]
          decryptData_def ENCRYPTION_CONFIG_def l and_then_def rethrow_def)
    then show ?thesis
      by (simp add: decryptCSVData_envelope [OF j] rethrow_def)
  qed
  then have e: "\<exists>m. snd (decryptCSVData sample_lib ?p (js ''SecurePassword123''))
          = Inl (JsError (''CSV decryption failed: '' @ m))"
    using T [where p = ?p, THEN conjunct2, THEN conjunct2, THEN conjunct2, THEN conjunct2]
    by (metis (no_types))
  show ?thesis using a b c d e by blast
qed

text \<open>
  The claim as stated fails: an envelope whose \<open>iv\<close> field is \<open>!!!!\<close>, which is not base64
  text, is not rejected up front. The key is derived first, and the call then fails on
  the length of the iv, with the same class of error as any other failure.
\<close>

theorem invalid_base64_not_rejected:
  "\<not> valid_base64 (js ''!!!!'')
   \<and> decryptCSVData sample_lib
       (Some (envelope (js ''AAAA'') (js ''!!!!'') (js ''AAAA'') (js ''AAAA'')
                ''aes-256-gcm'' 100000))
       (js ''SecurePassword123'')
     = ([DeriveKey],
        Inl (JsError ''CSV decryption failed: Decryption failed: IV must be 16 bytes''))"
proof -
  have j: "json_parse sample_lib
             (Some (envelope (js ''AAAA'') (js ''!!!!'') (js ''AAAA'') (js ''AAAA'')
                ''aes-256-gcm'' 100000))
           = Inr (envelope (js ''AAAA'') (js ''!!!!'') (js ''AAAA'') (js ''AAAA'')
                ''aes-256-gcm'' 100000)"
    by (rule sample_parse_Some)
  have l: "length (from_base64 sample_lib (js ''!!!!'')) = 4"
    by (simp add: sample_lib_def js_def)
  have "decryptWithPassword sample_lib (from_base64 sample_lib (js ''AAAA''))
          (js ''SecurePassword123'') (from_base64 sample_lib (js ''AAAA''))
          (from_base64 sample_lib (js ''!!!!'')) (from_base64 sample_lib (js ''AAAA''))
        = ([DeriveKey], Inl (JsError ''Decryption failed: IV must be 16 bytes''))"
    by (simp add: decryptWithPassword_def deriveKeyFromPassword_Some [OF sample_pbkdf2_value]
        decryptData_def ENCRYPTION_CONFIG_def l and_then_def rethrow_def)
  then show ?thesis
    by (simp add: decryptCSVData_envelope [OF j] rethrow_def exclamation_not_base64)
qed

section \<open>Opening a changed envelope\<close>

text \<open>
  Inverting any single bit of the tag of a sealed envelope makes \<open>decryptCSVData\<close>,
  called with the sealing password, fail with the error
  \<open>CSV decryption failed: Decryption failed: ...\<close> after the key derivation and one
  decipher run: the decipher accepts at most one 16-byte tag for a key, an iv and a
  ciphertext.
\<close>

theorem tampered_tag_rejected:
  assumes "kdf_contract L" "cipher_contract L" "base64_contract L" "json_contract L"
    and "tag_contract L"
    and "length random_iv = 16"
    and "pbkdf2 L (utf8_encode w) random_salt 100000 32 ''sha256'' = Inr k"
    and "cipher_gcm L ''aes-256-gcm'' k random_iv (utf8_encode p) = Inr (c, t)"
    and "i < 16" "j < 8"
  shows "\<exists>m. decryptCSVData L
               (json_stringify L
                  (envelope (to_base64 L random_salt) (to_base64 L random_iv)
                     (to_base64 L (flip_bit t i j)) (to_base64 L c) ''aes-256-gcm'' 100000)) w
             = ([DeriveKey, Decrypt],
                Inl (JsError (''CSV decryption failed: Decryption failed: '' @ m)))"
proof -
  have lk: "length k = 32"
    using assms(1,7) by (rule kdf_contract_length)
  have lt: "length t = 16"
    using cipher_contract_tag [OF assms(2) lk assms(6) assms(8)] .
  have d: "decipher_gcm L ''aes-256-gcm'' k random_iv t c = Inr (utf8_encode p)"
    using assms(2,6,8) lk unfolding cipher_contract_def
    by (metis sum.inject(2) prod.inject)
  have lf: "length (flip_bit t i j) = 16" by (simp add: flip_bit_length lt)
  have ne: "flip_bit t i j \<noteq> t"
    using assms(9,10) lt by (simp add: flip_bit_differs)
  have rej: "isl (decipher_gcm L ''aes-256-gcm'' k random_iv (flip_bit t i j) c)"
  proof (cases "decipher_gcm L ''aes-256-gcm'' k random_iv (flip_bit t i j) c")
    case (Inl e)
    then show ?thesis by simp
  next
    case (Inr d')
    with d lt lf assms(5) have "t = flip_bit t i j"
      unfolding tag_contract_def by blast
    with ne show ?thesis by simp
  qed
  have b: "from_base64 L (to_base64 L x) = x" for x
    using assms(3) by (simp add: base64_contract_def)
  have k': "pbkdf2 L (utf8_encode w) (from_base64 L (to_base64 L random_salt)) 100000 32
              ''sha256'' = Inr k"
    by (simp only: b assms(7))
  have ln: "length (from_base64 L (to_base64 L random_iv)) = 16"
    and lt': "length (from_base64 L (to_base64 L (flip_bit t i j))) = 16"
    by (simp_all only: b assms(6) lf)
  show ?thesis
    using rej
    by (cases "decipher_gcm L ''aes-256-gcm'' k random_iv (flip_bit t i j) c")
       (simp_all add: open_envelope_result [OF assms(4) k' lk ln lt'] b)
qed

text \<open>
  On the sample library, with the lowest bit of the first byte of the tag inverted.
\<close>

theorem tampered_tag_rejected_witness:
  "\<exists>m. decryptCSVData sample_lib
     (json_stringify sample_lib
        (envelope (to_base64 sample_lib (replicate 32 7)) (to_base64 sample_lib (replicate 16 9))
           (to_base64 sample_lib
              (flip_bit
                 (snd (projr (cipher_gcm sample_lib ''aes-256-gcm''
                    (projr (pbkdf2 sample_lib (utf8_encode (js ''SecurePassword123''))
                       (replicate 32 7) 100000 32 ''sha256''))
                    (replicate 16 9) (utf8_encode (js ''a,b'')))))
                 0 0))
           (to_base64 sample_lib
              (fst (projr (cipher_gcm sample_lib ''aes-256-gcm''
                 (projr (pbkdf2 sample_lib (utf8_encode (js ''SecurePassword123''))
                    (replicate 32 7) 100000 32 ''sha256''))
                 (replicate 16 9) (utf8_encode (js ''a,b''))))))
           ''aes-256-gcm'' 100000))
     (js ''SecurePassword123'')
   = ([DeriveKey, Decrypt],
      Inl (JsError (''CSV decryption failed: Decryption failed: '' @ m)))"
proof -
  define k :: buffer where
    "k = projr (pbkdf2 sample_lib (utf8_encode (js ''SecurePassword123''))
                    (replicate 32 7) 100000 32 ''sha256'')"
  define r where
    "r = projr (cipher_gcm sample_lib ''aes-256-gcm'' k (replicate 16 9)
                  (utf8_encode (js ''a,b'')))"
  have hk: "pbkdf2 sample_lib (utf8_encode (js ''SecurePassword123'')) (replicate 32 7)
              100000 32 ''sha256'' = Inr k"
    unfolding k_def by (simp only: sample_pbkdf2_value sum.sel)
  have hc: "cipher_gcm sample_lib ''aes-256-gcm'' k (replicate 16 9) (utf8_encode (js ''a,b''))
            = Inr (fst r, snd r)"
    unfolding r_def by (simp only: sample_cipher_value sum.sel prod.collapse)
  have l: "length (replicate 16 (9 :: byte)) = 16" by simp
  have i: "(0 :: nat) < 16" and j: "(0 :: nat) < 8" by simp_all
  show ?thesis
    using tampered_tag_rejected [OF sample_kdf_contract sample_cipher_contract
        sample_base64_contract sample_json_contract sample_tag_contract l hk hc i j]
    by (simp only: k_def r_def)
qed

text \<open>
  Plaintext is released only after the decipher accepted: whenever \<open>decryptCSVData\<close>
  returns a string for an envelope, whatever its fields hold, the decoded ciphertext
  and tag are what the cipher produces, under the key derived from the password and
  the decoded salt and under the decoded iv, for the bytes the string is decoded from.
  So a change of ciphertext, iv or salt either makes the call fail or yields an
  envelope that is itself a sealing of what is returned.
\<close>

theorem opened_plaintext_is_authentic:
  assumes "kdf_contract L" "decipher_contract L" "json_contract L"
    and "snd (decryptCSVData L (json_stringify L (envelope s n t c a i)) w) = Inr x"
  shows "\<exists>k d. pbkdf2 L (utf8_encode w) (from_base64 L s) 100000 32 ''sha256'' = Inr k
             \<and> cipher_gcm L ''aes-256-gcm'' k (from_base64 L n) d
                 = Inr (from_base64 L c, from_base64 L t)
             \<and> x = utf8_decode d"
proof -
  obtain k where k: "pbkdf2 L (utf8_encode w) (from_base64 L s) 100000 32 ''sha256'' = Inr k"
    and lk: "length k = 32"
    using assms(1) unfolding kdf_contract_def by blast
  have j: "json_parse L (json_stringify L (envelope s n t c a i)) = Inr (envelope s n t c a i)"
    using assms(3) by (simp add: json_contract_def)
  have r: "snd (rethrow ''CSV decryption failed: ''
             (rethrow ''Decryption failed: ''
               (and_then ([DeriveKey], Inr \<lparr>key = k, salt = from_base64 L s\<rparr>) (\<lambda>d.
                  decryptData L (from_base64 L c) (Some (key d)) (Some (from_base64 L n))
                    (Some (from_base64 L t)))))) = Inr x"
    using assms(4)
    by (simp add: decryptCSVData_envelope [OF j] decryptWithPassword_def
        deriveKeyFromPassword_Some [OF k])
  have ln: "length (from_base64 L n) = 16" and lt: "length (from_base64 L t) = 16"
    using r lk
    by (auto simp: and_then_def rethrow_def decryptData_def ENCRYPTION_CONFIG_def
        split: if_splits sum.splits prod.splits)
  from r have "map_sum id utf8_decode
       (decipher_gcm L ''aes-256-gcm'' k (from_base64 L n) (from_base64 L t) (from_base64 L c))
      = Inr x"
    by (auto simp: and_then_def rethrow_def decryptData_checked [OF lk ln lt]
        split: sum.splits prod.splits)
  then obtain d where
    d: "decipher_gcm L ''aes-256-gcm'' k (from_base64 L n) (from_base64 L t) (from_base64 L c)
        = Inr d" and x: "x = utf8_decode d"
    by (cases "decipher_gcm L ''aes-256-gcm'' k (from_base64 L n) (from_base64 L t)
                 (from_base64 L c)") auto
  have "cipher_gcm L ''aes-256-gcm'' k (from_base64 L n) d
        = Inr (from_base64 L c, from_base64 L t)"
    using assms(2) lk ln lt d unfolding decipher_contract_def by blast
  with k x show ?thesis by blast
qed

text \<open>
  On the sample library, for a sealed envelope.
\<close>

theorem opened_plaintext_is_authentic_witness:
  "\<exists>k d. pbkdf2 sample_lib (utf8_encode (js ''SecurePassword123''))
            (from_base64 sample_lib (to_base64 sample_lib (replicate 32 7)))
            100000 32 ''sha256'' = Inr k
         \<and> cipher_gcm sample_lib ''aes-256-gcm'' k
              (from_base64 sample_lib (to_base64 sample_lib (replicate 16 9))) d
             = Inr (from_base64 sample_lib (to_base64 sample_lib
                      (fst (projr (cipher_gcm sample_lib ''aes-256-gcm''
                         (projr (pbkdf2 sample_lib (utf8_encode (js ''SecurePassword123''))
                            (replicate 32 7) 100000 32 ''sha256''))
                         (replicate 16 9) (utf8_encode (js ''a,b'')))))),
                    from_base64 sample_lib (to_base64 sample_lib
                      (snd (projr (cipher_gcm sample_lib ''aes-256-gcm''
                         (projr (pbkdf2 sample_lib (utf8_encode (js ''SecurePassword123''))
                            (replicate 32 7) 100000 32 ''sha256''))
                         (replicate 16 9) (utf8_encode (js ''a,b'')))))))
         \<and> toWellFormed (js ''a,b'') = utf8_decode d"
proof -
  define k :: buffer where
    "k = projr (pbkdf2 sample_lib (utf8_encode (js ''SecurePassword123''))
                    (replicate 32 7) 100000 32 ''sha256'')"
  define r where
    "r = projr (cipher_gcm sample_lib ''aes-256-gcm'' k (replicate 16 9)
                  (utf8_encode (js ''a,b'')))"
  have hk: "pbkdf2 sample_lib (utf8_encode (js ''SecurePassword123'')) (replicate 32 7)
              100000 32 ''sha256'' = Inr k"
    unfolding k_def by (simp only: sample_pbkdf2_value sum.sel)
  have hc: "cipher_gcm sample_lib ''aes-256-gcm'' k (replicate 16 9) (utf8_encode (js ''a,b''))
            = Inr (fst r, snd r)"
    unfolding r_def by (simp only: sample_cipher_value sum.sel prod.collapse)
  have l: "length (replicate 16 (9 :: byte)) = 16" by simp
  have o: "snd (decryptCSVData sample_lib
            (json_stringify sample_lib
               (envelope (to_base64 sample_lib (replicate 32 7))
                  (to_base64 sample_lib (replicate 16 9)) (to_base64 sample_lib (snd r))
                  (to_base64 sample_lib (fst r)) ''aes-256-gcm'' 100000))
            (js ''SecurePassword123''))
           = Inr (toWellFormed (js ''a,b''))"
    using open_sealed_envelope [OF sample_kdf_contract sample_cipher_contract
        sample_base64_contract sample_json_contract l hk hc]
    by simp
  show ?thesis
    using opened_plaintext_is_authentic [OF sample_kdf_contract sample_decipher_contract
        sample_json_contract o]
    by (simp only: k_def r_def)
qed

section \<open>The CSV builder\<close>

text \<open>
  C9 at four inputs. The field \<open>cvv\<close> is written as \<open>***\<close> and a name that is no property
  at all (\<open>zip\<close>) gives an empty cell; but the names \<open>__proto__\<close> and \<open>hasOwnProperty\<close>,
  which are not in the field map, make \<open>buildCSVData\<close> throw a TypeError, and \<open>toString\<close>
  gives the cell \<open>[object Undefined]\<close>. The part of the claim that holds for every
  input is proved above, among the facts on the cells of the CSV builder.
\<close>

theorem prototype_names_reach_getter:
  "buildCSVData mockBillingData [js ''__proto__'']
     = Inl (JsTypeError ''getter is not a function'')
   \<and> buildCSVData mockBillingData [js ''city'', js ''hasOwnProperty'']
     = Inl (JsTypeError ''Cannot convert undefined or null to object'')
   \<and> buildCSVData mockBillingData [js ''cvv'', js ''toString'']
     = Inr (js ''cvv,toString'' @ [0x0A] @ js ''***,[object Undefined]'')
   \<and> buildCSVData mockBillingData [js ''cvv'', js ''zip'']
     = Inr (js ''cvv,zip'' @ [0x0A] @ js ''***,'')"
  by (simp add: buildCSVData_def cell_def fieldMap_def fieldMap_own_def object_prototype_def
      no_receiver_def mockBillingData_def)
     (simp add: js_def comma_def dquote_def)

end
